theory Spec2Isabelle
  imports Main "HOL-Library.AList" "HOL-Library.Sublist"
begin

section \<open>Data model\<close>

text \<open>
  \<^verbatim>\<open>metav1.GroupKind{Group, Kind}\<close>: the resource key. Go compares struct values
  field by field, which is the equality of the datatype.
\<close>

datatype GroupKind = GroupKind (Group: string) (Kind: string)

text \<open>
  A Go \<^verbatim>\<open>map[K]V\<close> is an association list with pairwise distinct keys. The order of
  the list is the order in which one \<^verbatim>\<open>range\<close> statement visits the entries; Go leaves
  that order unspecified, so the theorems below are stated for every list.
  \<^verbatim>\<open>m[k] = v\<close> is \<^const>\<open>AList.update\<close>: it overwrites the entry of an existing key in
  place and adds a new key otherwise. \<^verbatim>\<open>v, ok := m[k]\<close> is \<^const>\<open>map_of\<close>.
\<close>

type_synonym DesiredSet = "(GroupKind \<times> bool) list"

section \<open>ResourceSetParser: parseGroupKind\<close>

text \<open>
  \<^verbatim>\<open>strings.SplitN(line, ".", 2)\<close>: at most two pieces, cut at the first separator;
  the second piece is the unsplit remainder.
\<close>

definition SplitN2 :: "string \<Rightarrow> char \<Rightarrow> string list" where
  "SplitN2 s sep =
     (if sep \<in> set s
      then [takeWhile (\<lambda>c. c \<noteq> sep) s, tl (dropWhile (\<lambda>c. c \<noteq> sep) s)]
      else [s])"

text \<open>
  The body of the scan loop for one line that is neither blank nor a comment:
  \<^verbatim>\<open>
  parts := strings.SplitN(line, ".", 2)
  var gk metav1.GroupKind
  if len(parts) == 2 {
      gk = metav1.GroupKind{Group: parts[1], Kind: parts[0]}
  } else {
      gk.Kind = parts[0]
  }
  \<close>
\<close>

definition gkOfLine :: "string \<Rightarrow> GroupKind" where
  "gkOfLine line =
     (let parts = SplitN2 line CHR ''.''
      in if length parts = 2 then GroupKind (parts ! 1) (parts ! 0)
         else GroupKind [] (parts ! 0))"

text \<open>
  The \<^verbatim>\<open>for scanner.Scan()\<close> loop. \<open>TrimSpace\<close> stands for \<^verbatim>\<open>strings.TrimSpace\<close> of the
  Go library; the lines are the tokens of the \<^verbatim>\<open>bufio.Scanner\<close>.
\<close>

fun parseLines :: "(string \<Rightarrow> string) \<Rightarrow> string list \<Rightarrow> DesiredSet \<Rightarrow> DesiredSet" where
  "parseLines TrimSpace [] groupKindsMap = groupKindsMap"
| "parseLines TrimSpace (l # ls) groupKindsMap =
     (let line = TrimSpace l
      in if line = [] \<or> prefix ''#'' line then parseLines TrimSpace ls groupKindsMap
         else parseLines TrimSpace ls (AList.update (gkOfLine line) False groupKindsMap))"

datatype parse_error =
    FailedContentReader string
  | FailedRead string
  | NoGroupKindFound

text \<open>
  The source is what \<^verbatim>\<open>getContentReader\<close> yields: an error, or the lines of the
  content together with the error the scanner ends with, if any.
\<close>

type_synonym content = "string + (string list \<times> string option)"

definition parseGroupKind :: "(string \<Rightarrow> string) \<Rightarrow> content \<Rightarrow> parse_error + DesiredSet" where
  "parseGroupKind TrimSpace source =
     (case source of
        Inl err \<Rightarrow> Inl (FailedContentReader err)
      | Inr (lines, scanErr) \<Rightarrow>
          (let groupKindsMap = parseLines TrimSpace lines []
           in case scanErr of
                Some err \<Rightarrow> Inl (FailedRead err)
              | None \<Rightarrow>
                  if length groupKindsMap = 0 then Inl NoGroupKindFound
                  else Inr groupKindsMap))"

text \<open>The lines that survive trimming and comment skipping, as the specification words it.\<close>

definition keptLines :: "(string \<Rightarrow> string) \<Rightarrow> string list \<Rightarrow> string set" where
  "keptLines TrimSpace lines =
     {TrimSpace l | l. l \<in> set lines \<and> TrimSpace l \<noteq> [] \<and> \<not> prefix ''#'' (TrimSpace l)}"

text \<open>
  A sample trimming function for concrete runs: it strips the ASCII white space (tab, line
  feed, vertical tab, form feed, carriage return, blank) from both ends, as
  \<^verbatim>\<open>strings.TrimSpace\<close> does on ASCII text.
\<close>

definition isAsciiSpace :: "char \<Rightarrow> bool" where
  "isAsciiSpace c \<longleftrightarrow>
     c = CHR 0x09 \<or> c = CHR 0x0A \<or> c = CHR 0x0B \<or> c = CHR 0x0C \<or> c = CHR 0x0D \<or> c = CHR '' ''"

definition trimBlanks :: "string \<Rightarrow> string" where
  "trimBlanks s = rev (dropWhile isAsciiSpace (rev (dropWhile isAsciiSpace s)))"

section \<open>SchemaFilter: key extraction and path matching\<close>

definition extensionGVK :: string where
  "extensionGVK = ''x-kubernetes-group-version-kind''"

text \<open>
  \<^verbatim>\<open>spec.Operation\<close> and \<^verbatim>\<open>spec.PathItem\<close>, with the fields the filter reads: the
  vendor extensions of an operation and the seven method slots of a path item (a nil
  pointer is \<open>None\<close>). \<^verbatim>\<open>swagger.Paths\<close> is a pointer to the map from path name to
  path item.
\<close>

record 'ext Operation =
  Extensions :: 'ext

record 'ext PathItem =
  Get :: "'ext Operation option"
  Put :: "'ext Operation option"
  Post :: "'ext Operation option"
  Delete :: "'ext Operation option"
  Options :: "'ext Operation option"
  Head :: "'ext Operation option"
  Patch :: "'ext Operation option"

record 'ext Swagger =
  Paths :: "(string \<times> 'ext PathItem) list option"

text \<open>
  \<^verbatim>\<open>addGKFromOp\<close>. \<open>GetObject\<close> stands for the library call
  \<^verbatim>\<open>operation.Extensions.GetObject(extensionGVK, &newGKs)\<close>: \<open>Inl err\<close> when it returns
  an error, \<open>Inr gk\<close> when it returns nil and leaves \<open>gk\<close> in \<^verbatim>\<open>newGKs\<close>. The function
  returns its error together with the map \<^verbatim>\<open>gks\<close> as it leaves it.
\<close>

definition addGKFromOp ::
  "('ext \<Rightarrow> string \<Rightarrow> 'e + GroupKind) \<Rightarrow> 'ext Operation option
     \<Rightarrow> (GroupKind \<times> bool) list \<Rightarrow> 'e option \<times> (GroupKind \<times> bool) list" where
  "addGKFromOp GetObject operation gks =
     (case operation of
        None \<Rightarrow> (None, gks)
      | Some op \<Rightarrow>
          (case GetObject (Extensions op) extensionGVK of
             Inl err \<Rightarrow> (Some err, gks)
           | Inr newGKs \<Rightarrow> (None, AList.update newGKs True gks)))"

text \<open>
  \<^verbatim>\<open>groupKindsFromPath\<close>: every slot is offered to \<^verbatim>\<open>addGKFromOp\<close>; an error is
  logged and the loop goes on with the next slot. The result lists the keys of \<^verbatim>\<open>gks\<close>.
  Go visits the seven slots, and then the keys of \<^verbatim>\<open>gks\<close>, in an order it does not
  specify; the model takes the slots in the order GET, PUT, POST, DELETE, OPTIONS, HEAD,
  PATCH and lists the keys in the order in which they were added.
\<close>

definition opSlots :: "'ext PathItem \<Rightarrow> 'ext Operation option list" where
  "opSlots path = [Get path, Put path, Post path, Delete path, Options path, Head path, Patch path]"

definition groupKindsFromPath ::
  "('ext \<Rightarrow> string \<Rightarrow> 'e + GroupKind) \<Rightarrow> 'ext PathItem \<Rightarrow> GroupKind list" where
  "groupKindsFromPath GetObject path =
     map fst (fold (\<lambda>op gks. snd (addGKFromOp GetObject op gks)) (opSlots path) [])"

text \<open>
  The first loop of \<^verbatim>\<open>getDesiredPaths\<close>:
  \<^verbatim>\<open>
  for pathName, pathItem := range swagger.Paths.Paths {
      gks := groupKindsFromPath(pathItem, logger)
      for i := range gks {
          if _, ok := desiredGroupKinds[gks[i]]; ok {
              keepPaths = append(keepPaths, pathName)
              desiredGroupKinds[gks[i]] = true // set the GK as found
              break
          }
      }
  }
  \<close>
  The inner loop stops at the first key of \<^verbatim>\<open>gks\<close> that is a key of the desired set.
\<close>

fun keepLoop ::
  "('ext \<Rightarrow> string \<Rightarrow> 'e + GroupKind) \<Rightarrow> (string \<times> 'ext PathItem) list
     \<Rightarrow> string list \<Rightarrow> DesiredSet \<Rightarrow> string list \<times> DesiredSet" where
  "keepLoop GetObject [] keepPaths desiredGroupKinds = (keepPaths, desiredGroupKinds)"
| "keepLoop GetObject ((pathName, pathItem) # rest) keepPaths desiredGroupKinds =
     (case find (\<lambda>gk. map_of desiredGroupKinds gk \<noteq> None) (groupKindsFromPath GetObject pathItem) of
        None \<Rightarrow> keepLoop GetObject rest keepPaths desiredGroupKinds
      | Some gk \<Rightarrow>
          keepLoop GetObject rest (keepPaths @ [pathName])
            (AList.update gk True desiredGroupKinds))"

datatype match_error =
    NoPathsSet
  | FailedToFindPath GroupKind

text \<open>
  \<^verbatim>\<open>getDesiredPaths\<close> (the variant that takes the map of found flags). The map is
  shared with the caller, so the function returns it as it leaves it, next to its result.
  The second loop returns at the first entry whose flag is still false, with that key in
  the error.
\<close>

definition getDesiredPaths ::
  "('ext \<Rightarrow> string \<Rightarrow> 'e + GroupKind) \<Rightarrow> 'ext Swagger \<Rightarrow> DesiredSet
     \<Rightarrow> (match_error + string list) \<times> DesiredSet" where
  "getDesiredPaths GetObject swagger desiredGroupKinds =
     (case Paths swagger of
        None \<Rightarrow> (Inl NoPathsSet, desiredGroupKinds)
      | Some paths \<Rightarrow>
          (case keepLoop GetObject paths [] desiredGroupKinds of
             (keepPaths, desired') \<Rightarrow>
               (case find (\<lambda>(gk, foundPath). \<not> foundPath) desired' of
                  Some (gk, foundPath) \<Rightarrow> (Inl (FailedToFindPath gk), desired')
                | None \<Rightarrow> (Inr keepPaths, desired'))))"

text \<open>
  The vocabulary of the specification: the operations present on a path item, the keys
  they decode to, and the key that the inner loop marks for a path.
\<close>

definition presentOps :: "'ext PathItem \<Rightarrow> 'ext Operation list" where
  "presentOps path = [op. Some op \<leftarrow> opSlots path]"

definition extractedKeys ::
  "('ext \<Rightarrow> string \<Rightarrow> 'e + GroupKind) \<Rightarrow> 'ext PathItem \<Rightarrow> GroupKind set" where
  "extractedKeys GetObject path =
     {gk. \<exists>op \<in> set (presentOps path). GetObject (Extensions op) extensionGVK = Inr gk}"

definition markedKeys ::
  "('ext \<Rightarrow> string \<Rightarrow> 'e + GroupKind) \<Rightarrow> (string \<times> 'ext PathItem) list
     \<Rightarrow> DesiredSet \<Rightarrow> GroupKind set" where
  "markedKeys GetObject paths desired =
     {gk. \<exists>entry \<in> set paths.
        find (\<lambda>k. map_of desired k \<noteq> None) (groupKindsFromPath GetObject (snd entry)) = Some gk}"

text \<open>
  The vendor extensions of an operation and the library function
  \<^verbatim>\<open>spec.Extensions.GetObject(key, out)\<close>. An extension holds a value that the
  JSON decoder either turns into a key or rejects. The function looks the key up; when the
  extension is there it decodes the value into \<^verbatim>\<open>out\<close> and returns the decoder's
  error, if any; when the extension is not there it returns nil and leaves \<^verbatim>\<open>out\<close>
  as it was, which in \<^verbatim>\<open>addGKFromOp\<close> is the zero value of \<^verbatim>\<open>GroupKind\<close>.
  (The library puts the key into lower case before the lookup; \<^verbatim>\<open>extensionGVK\<close> is
  in lower case already.)
\<close>

datatype payload = Decodes GroupKind | Undecodable string

type_synonym extensions = "(string \<times> payload) list"

definition GetObject :: "extensions \<Rightarrow> string \<Rightarrow> string + GroupKind" where
  "GetObject e key =
     (case map_of e key of
        None \<Rightarrow> Inr (GroupKind [] [])
      | Some (Undecodable err) \<Rightarrow> Inl err
      | Some (Decodes gk) \<Rightarrow> Inr gk)"

text \<open>
  Operations for concrete runs: one stamped with a key, one whose extension the decoder
  rejects, one without the extension; and a path item without operations.
\<close>

definition stamped :: "GroupKind \<Rightarrow> extensions Operation" where
  "stamped gk = \<lparr>Extensions = [(extensionGVK, Decodes gk)]\<rparr>"

definition undecodable :: "extensions Operation" where
  "undecodable = \<lparr>Extensions = [(extensionGVK, Undecodable ''not an object'')]\<rparr>"

definition unstamped :: "extensions Operation" where
  "unstamped = \<lparr>Extensions = []\<rparr>"

definition noOps :: "extensions PathItem" where
  "noOps = \<lparr>Get = None, Put = None, Post = None, Delete = None,
            Options = None, Head = None, Patch = None\<rparr>"

text \<open>
  A sample document: path \<open>/A\<close> has a GET operation whose extension does not decode and
  a PUT operation stamped with the first key, \<open>/B\<close> and \<open>/C\<close> have one GET operation
  each, stamped with the second and the third key.
\<close>

definition key1 :: GroupKind where "key1 = GroupKind ''a.io'' ''Alpha''"
definition key2 :: GroupKind where "key2 = GroupKind ''b.io'' ''Beta''"
definition key3 :: GroupKind where "key3 = GroupKind ''c.io'' ''Gamma''"


text \<open>
  Two more sample documents: one whose only path carries the third key, and one whose
  only path has a GET operation stamped with the first key and a PUT operation stamped
  with the second, in either order of the two.
\<close>

definition docOnlyC :: "extensions Swagger" where
  "docOnlyC = \<lparr>Paths = Some [(''/C'', noOps\<lparr>Get := Some (stamped key3)\<rparr>)]\<rparr>"


text \<open>
  A document that uses other slots: path \<open>/A\<close> has a GET operation whose extension does
  not decode and a PATCH operation stamped with the first key, \<open>/B\<close> a HEAD operation
  stamped with the second key, \<open>/N\<close> an OPTIONS operation without the extension, and
  \<open>/C\<close> a DELETE operation stamped with the third key. And a document with the path
  \<open>/N\<close> only.
\<close>

definition key4 :: GroupKind where "key4 = GroupKind ''d.io'' ''Delta''"

definition slotsDoc :: "extensions Swagger" where
  "slotsDoc = \<lparr>Paths = Some
     [(''/A'', noOps\<lparr>Get := Some undecodable, Patch := Some (stamped key1)\<rparr>),
      (''/B'', noOps\<lparr>Head := Some (stamped key2)\<rparr>),
      (''/N'', noOps\<lparr>Options := Some unstamped\<rparr>),
      (''/C'', noOps\<lparr>Delete := Some (stamped key3)\<rparr>)]\<rparr>"

definition zeroDoc :: "extensions Swagger" where
  "zeroDoc = \<lparr>Paths = Some [(''/N'', noOps\<lparr>Options := Some unstamped\<rparr>)]\<rparr>"

section \<open>Polling\<close>

text \<open>
  \<^verbatim>\<open>wait.PollUntilContextTimeout(ctx, interval, timeout, true, condition)\<close> of the
  Kubernetes library calls the condition once per cycle until it reports done or an
  error, or until the context ends. The model is given, as a list, what the outside
  world answers in each of the cycles that fit into the budget; when the list is used
  up the budget has elapsed and the context error is returned. The result is the error
  (if any), the state the condition leaves, and the number of cycles that ran. (With
  \<^verbatim>\<open>immediate\<close> set, as in every call here, the condition runs at least once, so the
  list of a real run is not empty.)
\<close>

datatype 'e poll_error = ConditionError 'e | ContextEnded

fun PollUntilContextTimeout ::
  "('s \<Rightarrow> 'p \<Rightarrow> (bool \<times> 'e option) \<times> 's) \<Rightarrow> 'p list \<Rightarrow> 's
     \<Rightarrow> 'e poll_error option \<times> 's \<times> nat" where
  "PollUntilContextTimeout condition [] s = (Some ContextEnded, s, 0)"
| "PollUntilContextTimeout condition (p # ps) s =
     (case condition s p of
        ((done, Some err), s') \<Rightarrow> (Some (ConditionError err), s', 1)
      | ((True, None), s') \<Rightarrow> (None, s', 1)
      | ((False, None), s') \<Rightarrow>
          (case PollUntilContextTimeout condition ps s' of
             (r, s'', n) \<Rightarrow> (r, s'', Suc n)))"

section \<open>DiscoveryGate: waitForDesiredResources\<close>

text \<open>
  \<^verbatim>\<open>metav1.APIResourceList\<close> and \<^verbatim>\<open>metav1.APIResource\<close> with the fields the gate
  reads, and \<^verbatim>\<open>schema.GroupVersion\<close>. \<open>ParseGroupVersion\<close> stands for the library
  function of that name.
\<close>

record APIResource =
  APIResource_Name :: string
  APIResource_Kind :: string

record APIResourceList =
  GroupVersion :: string
  APIResources :: "APIResource list"

datatype schema_GroupVersion = SchemaGroupVersion (gvGroup: string) (gvVersion: string)

text \<open>
  The body of the innermost loop:
  \<^verbatim>\<open>
  if _, ok := GKfound[discoveredGK]; ok && !GKfound[discoveredGK] {
      GKfound[discoveredGK] = true
      foundNewGK = true
  }
  \<close>
\<close>

definition markDiscovered :: "GroupKind \<Rightarrow> DesiredSet \<times> bool \<Rightarrow> DesiredSet \<times> bool" where
  "markDiscovered discoveredGK st =
     (case st of (GKfound, foundNewGK) \<Rightarrow>
        if map_of GKfound discoveredGK = Some False
        then (AList.update discoveredGK True GKfound, True)
        else (GKfound, foundNewGK))"

text \<open>One entry of the resource list: an unparsable group-version is skipped.\<close>

definition scanResourceList ::
  "(string \<Rightarrow> 'e + schema_GroupVersion) \<Rightarrow> APIResourceList
     \<Rightarrow> DesiredSet \<times> bool \<Rightarrow> DesiredSet \<times> bool" where
  "scanResourceList ParseGroupVersion apiResource st =
     (case ParseGroupVersion (GroupVersion apiResource) of
        Inl err \<Rightarrow> st
      | Inr gv \<Rightarrow>
          fold (\<lambda>resource. markDiscovered (GroupKind (gvGroup gv) (APIResource_Kind resource)))
            (APIResources apiResource) st)"

text \<open>
  \<^verbatim>\<open>waitFunc\<close>, the condition of the poll. Its argument is the answer of
  \<^verbatim>\<open>ServerPreferredResources()\<close> in this cycle; a failed call is logged and reported
  as not done, without an error. The closure's variable \<^verbatim>\<open>GKfound\<close> is the state.
\<close>

definition waitFunc ::
  "(string \<Rightarrow> 'e + schema_GroupVersion) \<Rightarrow> DesiredSet \<Rightarrow> string + APIResourceList list
     \<Rightarrow> (bool \<times> string option) \<times> DesiredSet" where
  "waitFunc ParseGroupVersion GKfound poll =
     (case poll of
        Inl err \<Rightarrow> ((False, None), GKfound)
      | Inr apiResourceList \<Rightarrow>
          (case fold (scanResourceList ParseGroupVersion) apiResourceList (GKfound, False) of
             (GKfound', foundNewGK) \<Rightarrow>
               if list_all snd GKfound' then ((True, None), GKfound')
               else ((False, None), GKfound')))"

text \<open>
  The keys that \<^verbatim>\<open>formatNotFoundGroupKinds\<close> puts into its string, and
  \<^verbatim>\<open>countNotFound\<close>.
\<close>

definition notFoundGroupKinds :: "DesiredSet \<Rightarrow> GroupKind list" where
  "notFoundGroupKinds GKfound = map fst (filter (\<lambda>e. \<not> snd e) GKfound)"

definition countNotFound :: "DesiredSet \<Rightarrow> nat" where
  "countNotFound GKfound = length (filter (\<lambda>e. \<not> snd e) GKfound)"

datatype wait_error = NotAllDiscoverable "string poll_error"

text \<open>
  \<^verbatim>\<open>waitForDesiredResources\<close>. The error it returns is built from the constant
  \<^verbatim>\<open>discoveryPollTimeout\<close> and the error of the poll; the keys still missing go to the
  logger only (\<open>stillMissingLogged\<close> holds them when that line is written). The map
  \<^verbatim>\<open>GKfound\<close> is made anew from the keys of the caller's map, which the function never
  assigns to: \<open>desiredResources_after\<close> is the caller's map when the function returns.
\<close>

record wait_result =
  wait_err :: "wait_error option"
  stillMissingLogged :: "GroupKind list option"
  GKfound_final :: DesiredSet
  desiredResources_after :: DesiredSet
  cycles :: nat

definition waitForDesiredResources ::
  "(string \<Rightarrow> 'e + schema_GroupVersion) \<Rightarrow> DesiredSet
     \<Rightarrow> (string + APIResourceList list) list \<Rightarrow> wait_result" where
  "waitForDesiredResources ParseGroupVersion desiredResources polls =
     (let GKfound = map (\<lambda>e. (fst e, False)) desiredResources
      in case PollUntilContextTimeout (waitFunc ParseGroupVersion) polls GKfound of
           (Some err, GKfound', n) \<Rightarrow>
             \<lparr>wait_err = Some (NotAllDiscoverable err),
              stillMissingLogged = Some (notFoundGroupKinds GKfound'),
              GKfound_final = GKfound', desiredResources_after = desiredResources, cycles = n\<rparr>
         | (None, GKfound', n) \<Rightarrow>
             \<lparr>wait_err = None, stillMissingLogged = None,
              GKfound_final = GKfound', desiredResources_after = desiredResources, cycles = n\<rparr>)"

text \<open>
  The vocabulary of the specification: the (group, kind) pairs that one answer of the
  cluster serves, the pairs observed over a list of poll cycles, and the cycles at which
  the gate is satisfied.
\<close>

definition servedPairs ::
  "(string \<Rightarrow> 'e + schema_GroupVersion) \<Rightarrow> APIResourceList list \<Rightarrow> GroupKind set" where
  "servedPairs ParseGroupVersion apiResourceList =
     {GroupKind (gvGroup gv) (APIResource_Kind r) | l gv r.
        l \<in> set apiResourceList \<and> ParseGroupVersion (GroupVersion l) = Inr gv
        \<and> r \<in> set (APIResources l)}"

definition observed ::
  "(string \<Rightarrow> 'e + schema_GroupVersion) \<Rightarrow> (string + APIResourceList list) list
     \<Rightarrow> GroupKind set" where
  "observed ParseGroupVersion polls =
     {gk. \<exists>l. Inr l \<in> set polls \<and> gk \<in> servedPairs ParseGroupVersion l}"

definition satisfiedAt ::
  "(string \<Rightarrow> 'e + schema_GroupVersion) \<Rightarrow> DesiredSet
     \<Rightarrow> (string + APIResourceList list) list \<Rightarrow> nat \<Rightarrow> bool" where
  "satisfiedAt ParseGroupVersion desired polls i \<longleftrightarrow>
     i < length polls \<and> (\<exists>l. polls ! i = Inr l)
     \<and> fst ` set desired \<subseteq> observed ParseGroupVersion (take (Suc i) polls)"

text \<open>
  A sample parser of group-version strings for concrete runs, after
  \<^verbatim>\<open>schema.ParseGroupVersion\<close>: the empty string and \<open>/\<close> give the empty group and
  version, a string without a slash is a version of the empty group, a string with one
  slash is group and version, and a string with more slashes is an error.
\<close>

definition sampleParseGroupVersion :: "string \<Rightarrow> string + schema_GroupVersion" where
  "sampleParseGroupVersion gv =
     (if gv = [] \<or> gv = ''/'' then Inr (SchemaGroupVersion [] [])
      else if count_list gv CHR ''/'' = 0 then Inr (SchemaGroupVersion [] gv)
      else if count_list gv CHR ''/'' = 1
        then Inr (SchemaGroupVersion (takeWhile (\<lambda>c. c \<noteq> CHR ''/'') gv)
                    (tl (dropWhile (\<lambda>c. c \<noteq> CHR ''/'') gv)))
      else Inl ''unexpected GroupVersion string'')"

definition serves :: "string \<Rightarrow> string \<Rightarrow> APIResourceList" where
  "serves gv kind =
     \<lparr>GroupVersion = gv, APIResources = [\<lparr>APIResource_Name = ''things'', APIResource_Kind = kind\<rparr>]\<rparr>"

text \<open>
  Raising the flags of the keys in \<open>S\<close> in a map, for the keys the map has; the state of
  the gate after a list of cycles; and \<open>satisfiedAt\<close> for any state of the found flags.
\<close>

definition raise :: "GroupKind set \<Rightarrow> (GroupKind \<rightharpoonup> bool) \<Rightarrow> (GroupKind \<rightharpoonup> bool)" where
  "raise S f = (\<lambda>k. if k \<in> S \<and> f k \<noteq> None then Some True else f k)"

definition stateAfter ::
  "(string \<Rightarrow> 'e + schema_GroupVersion) \<Rightarrow> DesiredSet
     \<Rightarrow> (string + APIResourceList list) list \<Rightarrow> DesiredSet" where
  "stateAfter ParseGroupVersion GKfound polls =
     fold (\<lambda>p s. snd (waitFunc ParseGroupVersion s p)) polls GKfound"

definition doneAfter ::
  "(string \<Rightarrow> 'e + schema_GroupVersion) \<Rightarrow> DesiredSet
     \<Rightarrow> (string + APIResourceList list) list \<Rightarrow> nat \<Rightarrow> bool" where
  "doneAfter ParseGroupVersion GKfound polls i \<longleftrightarrow>
     i < length polls \<and> (\<exists>l. polls ! i = Inr l)
     \<and> {k. map_of GKfound k = Some False} \<subseteq> observed ParseGroupVersion (take (Suc i) polls)"

section \<open>KubeconfigExtractor: getKubeConfigFromContainer\<close>

text \<open>
  What the first read of the copied archive yields: \<^verbatim>\<open>tarReader.Next()\<close> returns
  \<^verbatim>\<open>io.EOF\<close> when the stream ends before any entry (\<open>NoEntry\<close>), or another error
  (\<open>BadHeader\<close>), or the header of the first entry, whose content \<^verbatim>\<open>io.ReadAll\<close>
  then reads up to an error or to its end (\<open>FirstEntry\<close>).
\<close>

datatype tar_stream =
    NoEntry
  | BadHeader string
  | FirstEntry "string + string"

text \<open>The answers of \<^verbatim>\<open>CopyFromContainer\<close>: the archive, "not found", another error.\<close>

datatype copy_answer =
    CopyOK tar_stream
  | CopyNotFound
  | CopyFailed string

text \<open>
  \<^verbatim>\<open>configFunc\<close>, the condition of the poll. The state is the closure's variable
  \<^verbatim>\<open>reader\<close>, which every call assigns.
\<close>

definition configFunc :: "tar_stream option \<Rightarrow> copy_answer \<Rightarrow> (bool \<times> string option) \<times> tar_stream option" where
  "configFunc reader answer =
     (case answer of
        CopyOK r \<Rightarrow> ((True, None), Some r)
      | CopyNotFound \<Rightarrow> ((False, None), None)
      | CopyFailed err \<Rightarrow> ((False, Some err), None))"

datatype kubeconfig_error =
    FailedAfterWaitTime
  | KubeConfigEmpty
  | FailedUntar string
  | FailedReadKubeconfig string
  | NilReader

text \<open>
  \<^verbatim>\<open>getKubeConfigFromContainer\<close>, given the answers of the copy call in the cycles
  that fit into \<^verbatim>\<open>waitTime\<close>. Any error of the poll becomes the same error
  ("failed to get kubeconfig from container after ..."). The result comes with the
  number of copy calls made. A poll that ends without error has set the reader, so the
  \<open>NilReader\<close> branch is never taken.
\<close>

definition getKubeConfigFromContainer :: "copy_answer list \<Rightarrow> (kubeconfig_error + string) \<times> nat" where
  "getKubeConfigFromContainer answers =
     (case PollUntilContextTimeout configFunc answers None of
        (Some err, reader, n) \<Rightarrow> (Inl FailedAfterWaitTime, n)
      | (None, None, n) \<Rightarrow> (Inl NilReader, n)
      | (None, Some NoEntry, n) \<Rightarrow> (Inl KubeConfigEmpty, n)
      | (None, Some (BadHeader err), n) \<Rightarrow> (Inl (FailedUntar err), n)
      | (None, Some (FirstEntry (Inl err)), n) \<Rightarrow> (Inl (FailedReadKubeconfig err), n)
      | (None, Some (FirstEntry (Inr configData)), n) \<Rightarrow> (Inr configData, n))"

section \<open>ContainerLifecycle: construction and creation of the container\<close>

definition rancherDefaultImage :: string where "rancherDefaultImage = ''rancher/rancher''"
definition defaultRancherVersion :: string where "defaultRancherVersion = ''latest''"
definition containerPort :: string where "containerPort = ''80/tcp''"
definition containerPortHTTPS :: string where "containerPortHTTPS = ''443/tcp''"
definition defaultHostPort :: string where "defaultHostPort = ''80''"
definition defaultHostPortHTTPS :: string where "defaultHostPortHTTPS = ''443''"
definition containerName_const :: string where "containerName_const = ''rancher-crd-swagger''"
definition defaultK3sPort :: string where "defaultK3sPort = ''6443''"

text \<open>
  \<^verbatim>\<open>rancherDockerContainer\<close>, without the client, the context and the logger.
\<close>

record rancherDockerContainer =
  image :: string
  containerName :: string
  hostPort :: string
  hostPortHTTPS :: string
  containerID :: string

text \<open>
  \<^verbatim>\<open>newRancherDockerContainer\<close>. \<open>clientErr\<close> is the error of
  \<^verbatim>\<open>docker.NewClientWithOpts\<close>, if any, and \<open>uuid\<close> the string of the last
  \<^verbatim>\<open>uuid.New()\<close>. The only check on the ports compares the HTTP host port with the
  HTTPS host port, after the defaults are filled in.
\<close>

definition newRancherDockerContainer ::
  "string option \<Rightarrow> string \<Rightarrow> string \<Rightarrow> string \<Rightarrow> string \<Rightarrow> string
     \<Rightarrow> string + rancherDockerContainer" where
  "newRancherDockerContainer clientErr uuid image_arg version hostPort_arg hostPortHTTPS_arg =
     (case clientErr of
        Some err \<Rightarrow> Inl err
      | None \<Rightarrow>
          (let img = (if image_arg \<noteq> [] then image_arg
                      else rancherDefaultImage @ '':'' @
                        (if version = [] then defaultRancherVersion else version));
               hp = (if hostPort_arg = [] then defaultHostPort else hostPort_arg);
               hps = (if hostPortHTTPS_arg = [] then defaultHostPortHTTPS else hostPortHTTPS_arg)
           in if hp = hps then Inl ''host port and host port https cannot be the same''
              else Inr \<lparr>image = img, containerName = containerName_const @ uuid,
                        hostPort = hp, hostPortHTTPS = hps, containerID = []\<rparr>))"

text \<open>
  The arguments of the \<^verbatim>\<open>ContainerCreate\<close> call that \<^verbatim>\<open>createRancherContainer\<close>
  builds: the image, the exposed ports, and for each container port its bindings as
  pairs of host address and host port.
\<close>

record create_request =
  req_Image :: string
  ExposedPorts :: "string list"
  PortBindings :: "(string \<times> (string \<times> string) list) list"
  Privileged :: bool
  RestartPolicy :: string

definition createRequest :: "rancherDockerContainer \<Rightarrow> create_request" where
  "createRequest r =
     \<lparr>req_Image = image r,
      ExposedPorts = [containerPort, containerPortHTTPS, defaultK3sPort @ ''/tcp''],
      PortBindings =
        [(containerPort, [(''127.0.0.1'', hostPort r)]),
         (containerPortHTTPS, [(''127.0.0.1'', hostPortHTTPS r)]),
         (defaultK3sPort @ ''/tcp'', [(''127.0.0.1'', defaultK3sPort)])],
      Privileged = True,
      RestartPolicy = ''unless-stopped''\<rparr>"

text \<open>The host ports that a create request binds, one per logical port.\<close>

definition boundHostPorts :: "create_request \<Rightarrow> string list" where
  "boundHostPorts req = concat (map (\<lambda>b. map snd (snd b)) (PortBindings req))"

section \<open>Orchestrator: run\<close>

text \<open>
  The calls that \<^verbatim>\<open>run\<close> makes, in the order it makes them, and the errors it returns:
  one per \<^verbatim>\<open>fmt.Errorf\<close> wrapper, with the wrapped error.
\<close>

datatype call =
    CallParseGroupKind
  | CallNewContainer
  | CallImagePull
  | CallContainerCreate create_request
  | CallContainerStart
  | CallWaitForContainer
  | CallStop
  | CallGetKubeConfig
  | CallNewKubeClient
  | CallWaitForDesiredResources
  | CallGetSwagger
  | CallGetDesiredPaths
  | CallFilterSpecByPaths
  | CallWriteDoc

datatype run_error =
    BothImageAndVersion
  | FailedSplitGroupKind string
  | FailedCreateRancherContainer string
  | FailedStartRancherContainer string
  | FailedGetKubeconfig string
  | FailedCreateKubeClient string
  | FailedWaitDesiredResources string
  | FailedGetSwagger string
  | SwaggerIsNil
  | FromGetDesiredPaths string
  | FailedWriteSwagger string
  | FromStop string

text \<open>The command line flags.\<close>

record commandFlags =
  resourcesFile :: string
  outputFile :: string
  prettyPrint :: bool
  rancherVersion :: string
  hostPortHTTP :: string
  flag_hostPortHTTPS :: string
  rancherDevImage :: string

text \<open>
  What the outside world answers to each step, should the step be reached: the error of
  the step, if any (for the swagger document also whether it is nil).
\<close>

record world =
  parseErr :: "string option"
  clientErr :: "string option"
  uuid :: string
  pullErr :: "string option"
  createAns :: "string + string"
  startErr :: "string option"
  waitContainerErr :: "string option"
  kubeConfigErr :: "string option"
  kubeClientErr :: "string option"
  waitResourcesErr :: "string option"
  swaggerAns :: "string + bool"
  desiredPathsErr :: "string option"
  writeErr :: "string option"
  stopErr :: "string option"

text \<open>
  \<^verbatim>\<open>rancherDockerContainer.start\<close>: pull, create, start, wait; the first error ends
  it. The result is the error and the calls made.
\<close>

definition start :: "world \<Rightarrow> rancherDockerContainer \<Rightarrow> string option \<times> call list" where
  "start w r =
     (case pullErr w of
        Some err \<Rightarrow> (Some err, [CallImagePull])
      | None \<Rightarrow>
          (case createAns w of
             Inl err \<Rightarrow> (Some err, [CallImagePull, CallContainerCreate (createRequest r)])
           | Inr cid \<Rightarrow>
               (case startErr w of
                  Some err \<Rightarrow>
                    (Some err, [CallImagePull, CallContainerCreate (createRequest r),
                                CallContainerStart])
                | None \<Rightarrow>
                    (waitContainerErr w,
                     [CallImagePull, CallContainerCreate (createRequest r),
                      CallContainerStart, CallWaitForContainer]))))"

text \<open>
  The part of \<^verbatim>\<open>run\<close> that follows the \<^verbatim>\<open>defer\<close> statement, up to its
  \<^verbatim>\<open>return\<close>: the value it assigns to the named result \<^verbatim>\<open>err\<close>, and the calls made.
\<close>

definition afterDefer :: "world \<Rightarrow> run_error option \<times> call list" where
  "afterDefer w =
     (case kubeConfigErr w of
        Some err \<Rightarrow> (Some (FailedGetKubeconfig err), [CallGetKubeConfig])
      | None \<Rightarrow>
     (case kubeClientErr w of
        Some err \<Rightarrow> (Some (FailedCreateKubeClient err), [CallGetKubeConfig, CallNewKubeClient])
      | None \<Rightarrow>
     (case waitResourcesErr w of
        Some err \<Rightarrow>
          (Some (FailedWaitDesiredResources err),
           [CallGetKubeConfig, CallNewKubeClient, CallWaitForDesiredResources])
      | None \<Rightarrow>
     (case swaggerAns w of
        Inl err \<Rightarrow>
          (Some (FailedGetSwagger err),
           [CallGetKubeConfig, CallNewKubeClient, CallWaitForDesiredResources, CallGetSwagger])
      | Inr isNil \<Rightarrow>
          if isNil then
            (Some SwaggerIsNil,
             [CallGetKubeConfig, CallNewKubeClient, CallWaitForDesiredResources, CallGetSwagger])
          else
     (case desiredPathsErr w of
        Some err \<Rightarrow>
          (Some (FromGetDesiredPaths err),
           [CallGetKubeConfig, CallNewKubeClient, CallWaitForDesiredResources, CallGetSwagger,
            CallGetDesiredPaths])
      | None \<Rightarrow>
     (case writeErr w of
        Some err \<Rightarrow>
          (Some (FailedWriteSwagger err),
           [CallGetKubeConfig, CallNewKubeClient, CallWaitForDesiredResources, CallGetSwagger,
            CallGetDesiredPaths, CallFilterSpecByPaths, CallWriteDoc])
      | None \<Rightarrow>
          (None,
           [CallGetKubeConfig, CallNewKubeClient, CallWaitForDesiredResources, CallGetSwagger,
            CallGetDesiredPaths, CallFilterSpecByPaths, CallWriteDoc])))))))"

text \<open>
  \<^verbatim>\<open>run\<close>. The deferred function is registered once \<^verbatim>\<open>start\<close> has returned without
  error; it runs when the function returns after that point, calls \<^verbatim>\<open>stop\<close>, and
  puts the error of \<^verbatim>\<open>stop\<close> into the result only when the result holds no error.
\<close>

record run_result =
  run_err :: "run_error option"
  calls :: "call list"

definition run :: "commandFlags \<Rightarrow> world \<Rightarrow> run_result" where
  "run cmdFlags w =
     (if rancherDevImage cmdFlags \<noteq> [] \<and> rancherVersion cmdFlags \<noteq> []
      then \<lparr>run_err = Some BothImageAndVersion, calls = []\<rparr>
      else
     (case parseErr w of
        Some err \<Rightarrow> \<lparr>run_err = Some (FailedSplitGroupKind err), calls = [CallParseGroupKind]\<rparr>
      | None \<Rightarrow>
     (case newRancherDockerContainer (clientErr w) (uuid w) (rancherDevImage cmdFlags)
             (rancherVersion cmdFlags) (hostPortHTTP cmdFlags) (flag_hostPortHTTPS cmdFlags) of
        Inl err \<Rightarrow>
          \<lparr>run_err = Some (FailedCreateRancherContainer err),
           calls = [CallParseGroupKind, CallNewContainer]\<rparr>
      | Inr rancherContainer \<Rightarrow>
     (case start w rancherContainer of
        (Some err, cs) \<Rightarrow>
          \<lparr>run_err = Some (FailedStartRancherContainer err),
           calls = [CallParseGroupKind, CallNewContainer] @ cs\<rparr>
      | (None, cs) \<Rightarrow>
          (case afterDefer w of
             (err, cs') \<Rightarrow>
               \<lparr>run_err = (if err = None then map_option FromStop (stopErr w) else err),
                calls = [CallParseGroupKind, CallNewContainer] @ cs @ cs' @ [CallStop]\<rparr>)))))"

text \<open>
  The vocabulary of the specification: whether a run reaches the point where the container
  has started, and the first error among the later stages, in pipeline order.
\<close>

definition containerStarted :: "commandFlags \<Rightarrow> world \<Rightarrow> bool" where
  "containerStarted cmdFlags w \<longleftrightarrow>
     \<not> (rancherDevImage cmdFlags \<noteq> [] \<and> rancherVersion cmdFlags \<noteq> [])
     \<and> parseErr w = None
     \<and> (\<exists>r. newRancherDockerContainer (clientErr w) (uuid w) (rancherDevImage cmdFlags)
             (rancherVersion cmdFlags) (hostPortHTTP cmdFlags) (flag_hostPortHTTPS cmdFlags) = Inr r)
     \<and> pullErr w = None \<and> (\<exists>cid. createAns w = Inr cid)
     \<and> startErr w = None \<and> waitContainerErr w = None"

definition laterStageErrors :: "world \<Rightarrow> run_error option list" where
  "laterStageErrors w =
     [map_option FailedGetKubeconfig (kubeConfigErr w),
      map_option FailedCreateKubeClient (kubeClientErr w),
      map_option FailedWaitDesiredResources (waitResourcesErr w),
      (case swaggerAns w of Inl err \<Rightarrow> Some (FailedGetSwagger err)
         | Inr isNil \<Rightarrow> if isNil then Some SwaggerIsNil else None),
      map_option FromGetDesiredPaths (desiredPathsErr w),
      map_option FailedWriteSwagger (writeErr w)]"

fun firstError :: "'e option list \<Rightarrow> 'e option" where
  "firstError [] = None"
| "firstError (None # es) = firstError es"
| "firstError (Some e # es) = Some e"

text \<open>Sample flags and a world in which every step succeeds.\<close>

definition sampleFlags :: "string \<Rightarrow> string \<Rightarrow> commandFlags" where
  "sampleFlags http https =
     \<lparr>resourcesFile = ''resources.txt'', outputFile = [], prettyPrint = False,
      rancherVersion = [], hostPortHTTP = http, flag_hostPortHTTPS = https,
      rancherDevImage = []\<rparr>"

definition goodWorld :: world where
  "goodWorld =
     \<lparr>parseErr = None, clientErr = None, uuid = ''0000'', pullErr = None,
      createAns = Inr ''c0ffee'', startErr = None, waitContainerErr = None,
      kubeConfigErr = None, kubeClientErr = None, waitResourcesErr = None,
      swaggerAns = Inr False, desiredPathsErr = None, writeErr = None, stopErr = None\<rparr>"

section \<open>Client construction: createRESTConfig and newKubeClient\<close>

text \<open>
  \<^verbatim>\<open>net.SplitHostPort\<close> and \<^verbatim>\<open>net.JoinHostPort\<close> of the Go library, on byte
  strings. \<open>IndexByte\<close> and \<open>LastIndexByte\<close> give the first and the last position
  of a byte.
\<close>

definition IndexByte :: "string \<Rightarrow> char \<Rightarrow> nat option" where
  "IndexByte s c =
     (if c \<in> set s then Some (length (takeWhile (\<lambda>x. x \<noteq> c) s)) else None)"

definition LastIndexByte :: "string \<Rightarrow> char \<Rightarrow> nat option" where
  "LastIndexByte s c =
     (if c \<in> set s
      then Some (length s - Suc (length (takeWhile (\<lambda>x. x \<noteq> c) (rev s))))
      else None)"

datatype addr_error =
    MissingPort
  | TooManyColons
  | MissingBracket
  | UnexpectedOpen
  | UnexpectedClose

definition SplitHostPort :: "string \<Rightarrow> addr_error + string \<times> string" where
  "SplitHostPort hostport =
     (case LastIndexByte hostport CHR '':'' of
        None \<Rightarrow> Inl MissingPort
      | Some i \<Rightarrow>
          (let finish = (\<lambda>host j k.
                 if CHR ''['' \<in> set (drop j hostport) then Inl UnexpectedOpen
                 else if CHR '']'' \<in> set (drop k hostport) then Inl UnexpectedClose
                 else Inr (host, drop (Suc i) hostport))
           in if hostport ! 0 = CHR ''[''
              then (case IndexByte hostport CHR '']'' of
                      None \<Rightarrow> Inl MissingBracket
                    | Some end \<Rightarrow>
                        if Suc end = length hostport then Inl MissingPort
                        else if Suc end = i
                          then finish (take (end - 1) (drop 1 hostport)) 1 (Suc end)
                        else if hostport ! Suc end = CHR '':'' then Inl TooManyColons
                        else Inl MissingPort)
              else (let host = take i hostport
                    in if CHR '':'' \<in> set host then Inl TooManyColons
                       else finish host 0 0)))"

definition JoinHostPort :: "string \<Rightarrow> string \<Rightarrow> string" where
  "JoinHostPort host port =
     (if CHR '':'' \<in> set host then ''['' @ host @ '']:'' @ port
      else host @ '':'' @ port)"

text \<open>
  \<^verbatim>\<open>url.URL\<close> and \<^verbatim>\<open>rest.Config\<close>: the field \<^verbatim>\<open>Host\<close> of each, the other fields
  being the extension of the record. \<open>RESTConfigFromKubeConfig\<close>, \<open>Parse\<close> and
  \<open>String\<close> stand for \<^verbatim>\<open>clientcmd.RESTConfigFromKubeConfig\<close>, \<^verbatim>\<open>url.Parse\<close> and
  \<^verbatim>\<open>(*url.URL).String\<close>.
\<close>

record URL =
  URL_Host :: string

record Config =
  Host :: string

datatype client_error =
    FailedRestConfig string
  | FailedParseURL string
  | FailedParseHost addr_error
  | FailedClientset string

text \<open>\<^verbatim>\<open>createRESTConfig\<close>, with the port flag \<^verbatim>\<open>cmdFlags.k3sPort\<close> as an argument.\<close>

definition createRESTConfig ::
  "(string \<Rightarrow> string + 'c Config_scheme) \<Rightarrow> (string \<Rightarrow> string + 'u URL_scheme)
     \<Rightarrow> ('u URL_scheme \<Rightarrow> string) \<Rightarrow> string \<Rightarrow> string
     \<Rightarrow> client_error + 'c Config_scheme" where
  "createRESTConfig RESTConfigFromKubeConfig Parse String k3sPort kubeConfig =
     (case RESTConfigFromKubeConfig kubeConfig of
        Inl err \<Rightarrow> Inl (FailedRestConfig err)
      | Inr restCfg \<Rightarrow>
          (case Parse (Host restCfg) of
             Inl err \<Rightarrow> Inl (FailedParseURL err)
           | Inr k3sURL \<Rightarrow>
               (case SplitHostPort (URL_Host k3sURL) of
                  Inl err \<Rightarrow> Inl (FailedParseHost err)
                | Inr (host, port) \<Rightarrow>
                    Inr (restCfg\<lparr>Host :=
                      String (k3sURL\<lparr>URL_Host := JoinHostPort host k3sPort\<rparr>)\<rparr>))))"

text \<open>
  \<^verbatim>\<open>newKubeClient\<close>: the same steps with the constant \<^verbatim>\<open>defaultK3sPort\<close>, followed
  by \<^verbatim>\<open>clientset.NewForConfig\<close> (\<open>NewForConfig\<close>).
\<close>

definition newKubeClient ::
  "(string \<Rightarrow> string + 'c Config_scheme) \<Rightarrow> (string \<Rightarrow> string + 'u URL_scheme)
     \<Rightarrow> ('u URL_scheme \<Rightarrow> string) \<Rightarrow> ('c Config_scheme \<Rightarrow> string + 'cs) \<Rightarrow> string
     \<Rightarrow> client_error + 'cs" where
  "newKubeClient RESTConfigFromKubeConfig Parse String NewForConfig restConfig =
     (case createRESTConfig RESTConfigFromKubeConfig Parse String defaultK3sPort restConfig of
        Inl err \<Rightarrow> Inl err
      | Inr restCfg \<Rightarrow>
          (case NewForConfig restCfg of
             Inl err \<Rightarrow> Inl (FailedClientset err)
           | Inr cs \<Rightarrow> Inr cs))"

text \<open>
  Sample library functions for concrete runs, on server URLs of the form
  \<open>scheme://host/path\<close>. The kubeconfig is the server URL itself. A URL with an ASCII
  control character does not parse, as with \<^verbatim>\<open>url.Parse\<close>; otherwise the host is the
  text between \<open>://\<close> and the next slash, and a string without \<open>://\<close> has an empty
  host. The client that is built is known by the server URL of its configuration.
\<close>

record sampleURL = URL +
  URL_Scheme :: string
  URL_Path :: string

definition sampleRESTConfig :: "string \<Rightarrow> string + Config" where
  "sampleRESTConfig kubeConfig =
     (if kubeConfig = [] then Inl ''no configuration'' else Inr \<lparr>Host = kubeConfig\<rparr>)"

definition isControl :: "char \<Rightarrow> bool" where
  "isControl c \<longleftrightarrow> of_char c < (32::nat) \<or> of_char c = (127::nat)"

definition sampleParse :: "string \<Rightarrow> string + sampleURL" where
  "sampleParse s =
     (if list_ex isControl s then Inl ''invalid control character in URL''
      else
        (let scheme = takeWhile (\<lambda>c. c \<noteq> CHR '':'') s;
             rest = dropWhile (\<lambda>c. c \<noteq> CHR '':'') s
         in if prefix ''://'' rest
            then Inr \<lparr>URL_Host = takeWhile (\<lambda>c. c \<noteq> CHR ''/'') (drop 3 rest),
                      URL_Scheme = scheme,
                      URL_Path = dropWhile (\<lambda>c. c \<noteq> CHR ''/'') (drop 3 rest)\<rparr>
            else Inr \<lparr>URL_Host = [], URL_Scheme = [], URL_Path = s\<rparr>))"

definition sampleString :: "sampleURL \<Rightarrow> string" where
  "sampleString u =
     (if URL_Scheme u = [] then URL_Path u
      else URL_Scheme u @ ''://'' @ URL_Host u @ URL_Path u)"

definition sampleNewForConfig :: "Config \<Rightarrow> string + string" where
  "sampleNewForConfig cfg = Inr (Host cfg)"

section \<open>SchemaFilter: the walk over the references\<close>

text \<open>
  Modelled from the spec: the two prefixes are constants of the walker that the sources
  do not show; they are the prefixes of a reference into the shared parameters and into
  the definitions of an OpenAPI v2 document.
\<close>

definition parameterPrefix :: string where "parameterPrefix = ''#/parameters/''"
definition definitionPrefix :: string where "definitionPrefix = ''#/definitions/''"

text \<open>
  A schema node with its own reference and its nested schemas (properties, items,
  compositions), a shared parameter with its reference, its schema and the reference of
  its items, and the two sections of the document that the walk reads. A name that a Go
  map does not hold yields the zero value.
\<close>

datatype Schema = Schema (schemaRef: string) (subSchemas: "Schema list")

record Parameter =
  param_Ref :: string
  param_Schema :: "Schema option"
  param_ItemsRef :: "string option"

record Root =
  Parameters :: "(string \<times> Parameter) list"
  Definitions :: "(string \<times> Schema) list"

definition lookupParameter :: "Root \<Rightarrow> string \<Rightarrow> Parameter" where
  "lookupParameter root paramName =
     (case map_of (Parameters root) paramName of
        Some param \<Rightarrow> param
      | None \<Rightarrow> \<lparr>param_Ref = [], param_Schema = None, param_ItemsRef = None\<rparr>)"

text \<open>
  \<open>walkRefCallback\<close> is the callback of \<^verbatim>\<open>walkOnAllReferences\<close> as the README of the
  aggregator package gives it:
  \<^verbatim>\<open>
  if refStr == "" { return }
  if strings.HasPrefix(refStr, parameterPrefix) {
      paramName := refStr[len(parameterPrefix):]
      param := root.Parameters[paramName]
      walker.walkRefCallback(&param.Ref)
      walker.walkSchema(param.Schema)
      if param.Items != nil { walker.walkRefCallback(&param.Items.Ref) }
  }
  if strings.HasPrefix(refStr, definitionPrefix) {
      defName := refStr[len(definitionPrefix):]
      if _, found := root.Definitions[defName]; found && !alreadyVisited[refStr] {
          alreadyVisited[refStr] = true
          def := root.Definitions[defName]
          walker.walkSchema(&def)
      }
  }
  \<close>
  The state is the set \<^verbatim>\<open>alreadyVisited\<close>, as a list. The recursion of the source is
  not bounded, so the model takes fuel: every call uses one unit, and \<open>None\<close> says
  that the fuel did not suffice.

  Modelled from the spec: \<open>walkSchema\<close>, which the sources do not show, passes the
  reference of a schema to the callback and then walks the nested schemas; a nil schema
  is left at once.
\<close>

fun walkRefCallback :: "nat \<Rightarrow> Root \<Rightarrow> string \<Rightarrow> string list \<Rightarrow> string list option"
  and walkSchema :: "nat \<Rightarrow> Root \<Rightarrow> Schema option \<Rightarrow> string list \<Rightarrow> string list option"
  and walkSchemas :: "nat \<Rightarrow> Root \<Rightarrow> Schema list \<Rightarrow> string list \<Rightarrow> string list option"
where
  "walkRefCallback 0 root refStr alreadyVisited = None"
| "walkRefCallback (Suc n) root refStr alreadyVisited =
     (if refStr = [] then Some alreadyVisited
      else
        (case (if prefix parameterPrefix refStr
               then (let param = lookupParameter root (drop (length parameterPrefix) refStr)
                     in case walkRefCallback n root (param_Ref param) alreadyVisited of
                          None \<Rightarrow> None
                        | Some v1 \<Rightarrow>
                            (case walkSchema n root (param_Schema param) v1 of
                               None \<Rightarrow> None
                             | Some v2 \<Rightarrow>
                                 (case param_ItemsRef param of
                                    None \<Rightarrow> Some v2
                                  | Some itemsRef \<Rightarrow> walkRefCallback n root itemsRef v2)))
               else Some alreadyVisited) of
           None \<Rightarrow> None
         | Some v3 \<Rightarrow>
             if prefix definitionPrefix refStr
             then (case map_of (Definitions root) (drop (length definitionPrefix) refStr) of
                     None \<Rightarrow> Some v3
                   | Some def \<Rightarrow>
                       if refStr \<notin> set v3
                       then walkSchema n root (Some def) (refStr # v3)
                       else Some v3)
             else Some v3))"
| "walkSchema 0 root schema alreadyVisited = None"
| "walkSchema (Suc n) root None alreadyVisited = Some alreadyVisited"
| "walkSchema (Suc n) root (Some (Schema ref subs)) alreadyVisited =
     (case walkRefCallback n root ref alreadyVisited of
        None \<Rightarrow> None
      | Some v1 \<Rightarrow> walkSchemas n root subs v1)"
| "walkSchemas 0 root schemas alreadyVisited = None"
| "walkSchemas (Suc n) root [] alreadyVisited = Some alreadyVisited"
| "walkSchemas (Suc n) root (s # ss) alreadyVisited =
     (case walkSchema n root (Some s) alreadyVisited of
        None \<Rightarrow> None
      | Some v1 \<Rightarrow> walkSchemas n root ss v1)"

text \<open>
  Modelled from the spec: the definitions of the output are the definitions whose names
  the walk has reached.
\<close>

definition keptDefinitions :: "Root \<Rightarrow> string list \<Rightarrow> (string \<times> Schema) list" where
  "keptDefinitions root alreadyVisited =
     filter (\<lambda>d. definitionPrefix @ fst d \<in> set alreadyVisited) (Definitions root)"

text \<open>
  Three sample documents. In the first a shared parameter \<open>X\<close> has a schema that refers
  to the definition \<open>Y\<close>, whose items refer to \<open>Y\<close> again. In the second the shared
  parameter \<open>X\<close> refers to itself, and in the third the schema of the shared parameter
  \<open>X\<close> refers to \<open>X\<close>.
\<close>

definition chainRoot :: Root where
  "chainRoot =
     \<lparr>Parameters =
        [(''X'', \<lparr>param_Ref = [], param_Schema = Some (Schema ''#/definitions/Y'' []),
                  param_ItemsRef = None\<rparr>)],
      Definitions =
        [(''Y'', Schema [] [Schema ''#/definitions/Y'' []]),
         (''Z'', Schema [] [])]\<rparr>"

definition selfParamRoot :: Root where
  "selfParamRoot =
     \<lparr>Parameters =
        [(''X'', \<lparr>param_Ref = ''#/parameters/X'', param_Schema = None, param_ItemsRef = None\<rparr>)],
      Definitions = []\<rparr>"

definition schemaParamRoot :: Root where
  "schemaParamRoot =
     \<lparr>Parameters =
        [(''X'', \<lparr>param_Ref = [], param_Schema = Some (Schema ''#/parameters/X'' []),
                  param_ItemsRef = None\<rparr>)],
      Definitions = []\<rparr>"

section \<open>Properties of the parser\<close>

lemma SplitN2_no_sep: "sep \<notin> set s \<Longrightarrow> SplitN2 s sep = [s]"
  by (simp add: SplitN2_def)

lemma SplitN2_first_sep:
  "sep \<notin> set k \<Longrightarrow> SplitN2 (k @ sep # g) sep = [k, g]"
  by (simp add: SplitN2_def takeWhile_append dropWhile_append)

lemma gkOfLine_no_dot: "CHR ''.'' \<notin> set s \<Longrightarrow> gkOfLine s = GroupKind [] s"
  by (simp add: gkOfLine_def SplitN2_no_sep)

lemma gkOfLine_dot:
  "CHR ''.'' \<notin> set k \<Longrightarrow> gkOfLine (k @ ''.'' @ g) = GroupKind g k"
  by (simp add: gkOfLine_def SplitN2_first_sep)

lemma parseLines_keys:
  "fst ` set (parseLines T ls m) = fst ` set m \<union> gkOfLine ` keptLines T ls"
proof (induction ls arbitrary: m)
  case Nil
  then show ?case by (simp add: keptLines_def)
next
  case (Cons l ls)
  have split: "keptLines T (l # ls) =
      (if T l = [] \<or> prefix ''#'' (T l) then keptLines T ls
       else insert (T l) (keptLines T ls))"
    by (auto simp: keptLines_def)
  show ?case
    by (auto simp: Cons.IH split Let_def AList.dom_update)
qed

lemma parseLines_distinct:
  "distinct (map fst m) \<Longrightarrow> distinct (map fst (parseLines T ls m))"
  by (induction ls arbitrary: m) (simp_all add: Let_def AList.distinct_update)

lemma update_False_flags:
  "\<forall>e \<in> set m. \<not> snd e \<Longrightarrow> \<forall>e \<in> set (AList.update k False m). \<not> snd e"
  by (induction m) auto

lemma parseLines_flags:
  "\<forall>e \<in> set m. \<not> snd e \<Longrightarrow> \<forall>e \<in> set (parseLines T ls m). \<not> snd e"
proof (induction ls arbitrary: m)
  case Nil
  then show ?case by simp
next
  case (Cons l ls)
  show ?case
    using Cons.IH [OF Cons.prems]
      Cons.IH [OF update_False_flags [OF Cons.prems]]
    by (simp add: Let_def)
qed

text \<open>
  Claim C6. On every source that can be read, the parser trims each line, skips blank
  lines and lines that start with \<open>#\<close>, cuts each remaining line at its first dot into
  kind and group (the group keeps any further dots; a line without a dot gets the empty
  group), keeps one entry per distinct key with the flag \<open>False\<close>, and the size of the
  resulting set is the number of distinct keys.
\<close>

theorem parseGroupKind_set_semantics:
  assumes "parseGroupKind T (Inr (lines, None)) = Inr m"
  shows "fst ` set m = gkOfLine ` keptLines T lines
       \<and> distinct (map fst m)
       \<and> (\<forall>e \<in> set m. snd e = False)
       \<and> length m = card (gkOfLine ` keptLines T lines)
       \<and> (\<forall>k g. CHR ''.'' \<notin> set k \<longrightarrow> gkOfLine (k @ ''.'' @ g) = GroupKind g k)
       \<and> (\<forall>s. CHR ''.'' \<notin> set s \<longrightarrow> gkOfLine s = GroupKind [] s)"
proof -
  from assms have m: "m = parseLines T lines []"
    by (simp add: parseGroupKind_def Let_def split: if_splits)
  have keys: "fst ` set m = gkOfLine ` keptLines T lines"
    using parseLines_keys [of T lines "[]"] by (simp add: m)
  have dist: "distinct (map fst m)"
    using parseLines_distinct [of "[]" T lines] by (simp add: m)
  have flags: "\<forall>e \<in> set m. snd e = False"
    using parseLines_flags [of "[]" T lines] by (simp add: m)
  have "length m = length (map fst m)" by simp
  also have "\<dots> = card (set (map fst m))"
    using dist by (simp only: distinct_card)
  also have "\<dots> = card (gkOfLine ` keptLines T lines)"
    using keys by simp
  finally have len: "length m = card (gkOfLine ` keptLines T lines)" .
  show ?thesis
    using keys dist flags len gkOfLine_dot gkOfLine_no_dot by blast
qed

theorem parseGroupKind_set_semantics_witness:
  "parseGroupKind trimBlanks (Inr ([''  Foo.bar.io '', ''# note'', '''', ''Foo.bar.io'', ''Pod''], None))
     = Inr [(GroupKind ''bar.io'' ''Foo'', False), (GroupKind [] ''Pod'', False)]
   \<and> length [(GroupKind ''bar.io'' ''Foo'', False), (GroupKind [] ''Pod'', False)]
     = card (gkOfLine ` keptLines trimBlanks [''  Foo.bar.io '', ''# note'', '''', ''Foo.bar.io'', ''Pod''])
   \<and> gkOfLine (''Foo'' @ ''.'' @ ''bar.io'') = GroupKind ''bar.io'' ''Foo''
   \<and> gkOfLine ''Pod'' = GroupKind [] ''Pod''"
proof -
  have h: "parseGroupKind trimBlanks
      (Inr ([''  Foo.bar.io '', ''# note'', '''', ''Foo.bar.io'', ''Pod''], None))
     = Inr [(GroupKind ''bar.io'' ''Foo'', False), (GroupKind [] ''Pod'', False)]"
    by (simp add: parseGroupKind_def trimBlanks_def isAsciiSpace_def gkOfLine_def SplitN2_def)
  note t = parseGroupKind_set_semantics [OF h]
  from t have c: "length [(GroupKind ''bar.io'' ''Foo'', False), (GroupKind [] ''Pod'', False)]
     = card (gkOfLine ` keptLines trimBlanks [''  Foo.bar.io '', ''# note'', '''', ''Foo.bar.io'', ''Pod''])"
    by blast
  from t have "CHR ''.'' \<notin> set ''Foo'' \<longrightarrow> gkOfLine (''Foo'' @ ''.'' @ ''bar.io'') = GroupKind ''bar.io'' ''Foo''"
    by blast
  then have d: "gkOfLine (''Foo'' @ ''.'' @ ''bar.io'') = GroupKind ''bar.io'' ''Foo''"
    by simp
  from t have "CHR ''.'' \<notin> set ''Pod'' \<longrightarrow> gkOfLine ''Pod'' = GroupKind [] ''Pod''"
    by blast
  then have e: "gkOfLine ''Pod'' = GroupKind [] ''Pod''"
    by simp
  show ?thesis
    using h c d e by blast
qed

section \<open>Properties of key extraction and path matching\<close>

lemma addGKFromOp_keys:
  "fst ` set (snd (addGKFromOp G a gks)) =
     fst ` set gks \<union> {gk. \<exists>op. a = Some op \<and> G (Extensions op) extensionGVK = Inr gk}"
  by (auto simp: addGKFromOp_def AList.dom_update split: option.splits sum.splits)

lemma fold_addGKFromOp_keys:
  "fst ` set (fold (\<lambda>op gks. snd (addGKFromOp G op gks)) ops gks) =
     fst ` set gks \<union> {gk. \<exists>op. Some op \<in> set ops \<and> G (Extensions op) extensionGVK = Inr gk}"
proof (induction ops arbitrary: gks)
  case Nil
  then show ?case by simp
next
  case (Cons a ops)
  show ?case
    by (simp only: fold_simps Cons.IH addGKFromOp_keys) auto
qed

lemma set_presentOps: "set (presentOps path) = {op. Some op \<in> set (opSlots path)}"
  by (auto simp: presentOps_def)

lemma set_groupKindsFromPath: "set (groupKindsFromPath G path) = extractedKeys G path"
  using fold_addGKFromOp_keys [of G "opSlots path" "[]"]
  by (auto simp: groupKindsFromPath_def extractedKeys_def set_presentOps)

lemma find_SomeD: "find P xs = Some x \<Longrightarrow> x \<in> set xs \<and> P x"
  by (induction xs) (auto split: if_splits)

lemma find_None_conv: "find P xs = None \<longleftrightarrow> (\<forall>x \<in> set xs. \<not> P x)"
  by (induction xs) auto

lemma map_of_update_defined:
  "map_of d g \<noteq> None \<Longrightarrow> (map_of (AList.update g v d) k \<noteq> None) = (map_of d k \<noteq> None)"
  by (simp add: AList.update_conv')

lemma keys_update_existing:
  "map_of d g \<noteq> None \<Longrightarrow> map fst (AList.update g v d) = map fst d"
  by (simp add: AList.update_keys map_of_eq_None_iff)

lemma keepLoop_keys: "map fst (snd (keepLoop G ps keep d)) = map fst d"
proof (induction ps arbitrary: keep d)
  case Nil
  then show ?case by simp
next
  case (Cons a ps)
  obtain p item where a: "a = (p, item)" by (cases a)
  show ?case
  proof (cases "find (\<lambda>gk. map_of d gk \<noteq> None) (groupKindsFromPath G item)")
    case None
    then show ?thesis by (simp add: a Cons.IH del: not_None_eq)
  next
    case (Some gk)
    then have "map_of d gk \<noteq> None" by (blast dest: find_SomeD)
    then show ?thesis
      by (simp add: a Some Cons.IH keys_update_existing del: not_None_eq)
  qed
qed

lemma keepLoop_kept:
  "set (fst (keepLoop G ps keep d)) =
     set keep \<union> {p. \<exists>item. (p, item) \<in> set ps \<and> extractedKeys G item \<inter> fst ` set d \<noteq> {}}"
proof (induction ps arbitrary: keep d)
  case Nil
  then show ?case by simp
next
  case (Cons a ps)
  obtain p item where a: "a = (p, item)" by (cases a)
  show ?case
  proof (cases "find (\<lambda>gk. map_of d gk \<noteq> None) (groupKindsFromPath G item)")
    case None
    then have "extractedKeys G item \<inter> fst ` set d = {}"
      by (auto simp: find_None_conv set_groupKindsFromPath map_of_eq_None_iff)
    then show ?thesis
      using None by (auto simp: a Cons.IH simp del: not_None_eq)
  next
    case (Some gk)
    then have gk: "gk \<in> extractedKeys G item" "map_of d gk \<noteq> None"
      using find_SomeD [OF Some] by (simp_all add: set_groupKindsFromPath)
    then have inter: "extractedKeys G item \<inter> fst ` set d \<noteq> {}"
      by (auto simp: map_of_eq_None_iff)
    have keys: "fst ` set (AList.update gk True d) = fst ` set d"
      using gk(2) by (auto simp: AList.dom_update map_of_eq_None_iff)
    show ?thesis
      using inter by (auto simp: a Some Cons.IH keys simp del: not_None_eq)
  qed
qed

lemma GetObject_Inr:
  "GetObject e key = Inr gk \<longleftrightarrow>
     map_of e key = Some (Decodes gk) \<or> (map_of e key = None \<and> gk = GroupKind [] [])"
  by (auto simp: GetObject_def split: option.splits payload.splits)

lemma extractedKeys_desired:
  assumes "GroupKind [] [] \<notin> fst ` set desired"
  shows "extractedKeys GetObject item \<inter> fst ` set desired \<noteq> {} \<longleftrightarrow>
           (\<exists>op gk. Some op \<in> {Get item, Put item, Post item, Delete item, Options item,
                                 Head item, Patch item}
              \<and> map_of (Extensions op) extensionGVK = Some (Decodes gk)
              \<and> gk \<in> fst ` set desired)"
proof -
  have slots: "set (presentOps item) =
      {op. Some op \<in> {Get item, Put item, Post item, Delete item, Options item,
                        Head item, Patch item}}"
    by (auto simp: set_presentOps opSlots_def)
  have "extractedKeys GetObject item \<inter> fst ` set desired \<noteq> {} \<longleftrightarrow>
      (\<exists>op gk. op \<in> set (presentOps item) \<and> GetObject (Extensions op) extensionGVK = Inr gk
         \<and> gk \<in> fst ` set desired)"
    unfolding extractedKeys_def by blast
  also have "\<dots> \<longleftrightarrow>
      (\<exists>op gk. op \<in> set (presentOps item)
         \<and> map_of (Extensions op) extensionGVK = Some (Decodes gk)
         \<and> gk \<in> fst ` set desired)"
    using assms unfolding GetObject_Inr by blast
  finally show ?thesis
    unfolding slots by simp
qed

text \<open>
  Claim C1, as the code has it. For a desired set without the empty key: whenever the filter
  returns a list of kept paths, a path name is in it if and only if one of the seven
  method slots of that path holds an operation whose vendor extension decodes to a key
  that equals a key of the desired set. An operation whose extension does not decode
  returns its error and leaves the keys of the path as they are, and the other slots are
  still read.
\<close>

theorem getDesiredPaths_keeps_matching_paths:
  assumes "fst (getDesiredPaths GetObject sw desired) = Inr keep"
    and "GroupKind [] [] \<notin> fst ` set desired"
  shows "(p \<in> set keep \<longleftrightarrow>
            (\<exists>ps item op gk. Paths sw = Some ps \<and> (p, item) \<in> set ps
               \<and> Some op \<in> {Get item, Put item, Post item, Delete item, Options item,
                              Head item, Patch item}
               \<and> map_of (Extensions op) extensionGVK = Some (Decodes gk)
               \<and> gk \<in> fst ` set desired))
       \<and> (\<forall>op err gks. map_of (Extensions op) extensionGVK = Some (Undecodable err) \<longrightarrow>
            addGKFromOp GetObject (Some op) gks = (Some err, gks))"
proof -
  from assms(1) obtain ps where ps: "Paths sw = Some ps"
    by (cases "Paths sw") (auto simp: getDesiredPaths_def)
  from assms(1) ps have "keep = fst (keepLoop GetObject ps [] desired)"
    by (auto simp: getDesiredPaths_def split: prod.splits option.splits)
  then have kept: "set keep = {p. \<exists>item. (p, item) \<in> set ps \<and>
      extractedKeys GetObject item \<inter> fst ` set desired \<noteq> {}}"
    by (simp add: keepLoop_kept)
  have a: "p \<in> set keep \<longleftrightarrow>
      (\<exists>ps item op gk. Paths sw = Some ps \<and> (p, item) \<in> set ps
         \<and> Some op \<in> {Get item, Put item, Post item, Delete item, Options item,
                        Head item, Patch item}
         \<and> map_of (Extensions op) extensionGVK = Some (Decodes gk)
         \<and> gk \<in> fst ` set desired)"
    unfolding kept using ps by (simp add: extractedKeys_desired [OF assms(2)])
  have b: "\<forall>op err gks. map_of (Extensions op) extensionGVK = Some (Undecodable err) \<longrightarrow>
      addGKFromOp GetObject (Some op) gks = (Some err, gks)"
    by (simp add: addGKFromOp_def GetObject_def)
  show ?thesis using a b by blast
qed

theorem getDesiredPaths_keeps_matching_paths_witness:
  "fst (getDesiredPaths GetObject slotsDoc [(key1, False), (key3, False)]) = Inr [''/A'', ''/C'']
   \<and> GroupKind [] [] \<notin> fst ` set [(key1, False), (key3, False)]
   \<and> (\<exists>ps item op gk. Paths slotsDoc = Some ps \<and> (''/A'', item) \<in> set ps
         \<and> Some op \<in> {Get item, Put item, Post item, Delete item, Options item,
                        Head item, Patch item}
         \<and> map_of (Extensions op) extensionGVK = Some (Decodes gk)
         \<and> gk \<in> fst ` set [(key1, False), (key3, False)])
   \<and> \<not> (\<exists>ps item op gk. Paths slotsDoc = Some ps \<and> (''/B'', item) \<in> set ps
         \<and> Some op \<in> {Get item, Put item, Post item, Delete item, Options item,
                        Head item, Patch item}
         \<and> map_of (Extensions op) extensionGVK = Some (Decodes gk)
         \<and> gk \<in> fst ` set [(key1, False), (key3, False)])
   \<and> \<not> (\<exists>ps item op gk. Paths slotsDoc = Some ps \<and> (''/N'', item) \<in> set ps
         \<and> Some op \<in> {Get item, Put item, Post item, Delete item, Options item,
                        Head item, Patch item}
         \<and> map_of (Extensions op) extensionGVK = Some (Decodes gk)
         \<and> gk \<in> fst ` set [(key1, False), (key3, False)])
   \<and> addGKFromOp GetObject (Some undecodable) [(key2, True)]
       = (Some ''not an object'', [(key2, True)])"
proof -
  let ?d = "[(key1, False), (key3, False)]"
  have h: "fst (getDesiredPaths GetObject slotsDoc ?d) = Inr [''/A'', ''/C'']"
    by code_simp
  have z: "GroupKind [] [] \<notin> fst ` set ?d"
    by (simp add: key1_def key3_def)
  note t = getDesiredPaths_keeps_matching_paths [OF h z]
  have a: "''/A'' \<in> set [''/A'', ''/C'']" by simp
  have b: "''/B'' \<notin> set [''/A'', ''/C'']" by simp
  have n: "''/N'' \<notin> set [''/A'', ''/C'']" by simp
  have u: "map_of (Extensions undecodable) extensionGVK = Some (Undecodable ''not an object'')"
    by (simp add: undecodable_def)
  have e: "addGKFromOp GetObject (Some undecodable) [(key2, True)]
      = (Some ''not an object'', [(key2, True)])"
    using t [of "''/A''"] u by blast
  show ?thesis
    using h z a b n e t [of "''/A''"] t [of "''/B''"] t [of "''/N''"]
    by blast
qed

theorem getDesiredPaths_keeps_matching_paths_counterexample:
  "fst (getDesiredPaths GetObject slotsDoc [(key1, False), (key4, False)])
      = Inl (FailedToFindPath key4)
   \<and> groupKindsFromPath GetObject (noOps\<lparr>Get := Some undecodable, Patch := Some (stamped key1)\<rparr>)
      = [key1]
   \<and> parseGroupKind trimBlanks (Inr ([''.''], None)) = Inr [(GroupKind [] [], False)]
   \<and> map_of (Extensions unstamped) extensionGVK = None
   \<and> fst (getDesiredPaths GetObject zeroDoc [(GroupKind [] [], False)]) = Inr [''/N'']"
  by code_simp

section \<open>The found flags after the scan of the paths\<close>

lemma markedKeys_Nil: "markedKeys G [] d = {}"
  by (simp add: markedKeys_def)

lemma markedKeys_Cons:
  "markedKeys G ((p, item) # ps) d =
     (case find (\<lambda>k. map_of d k \<noteq> None) (groupKindsFromPath G item) of
        None \<Rightarrow> markedKeys G ps d
      | Some gk \<Rightarrow> insert gk (markedKeys G ps d))"
  by (auto simp: markedKeys_def simp del: not_None_eq split: option.splits)

lemma markedKeys_update:
  "map_of d g \<noteq> None \<Longrightarrow> markedKeys G ps (AList.update g v d) = markedKeys G ps d"
  by (simp add: markedKeys_def map_of_update_defined del: not_None_eq)

lemma keepLoop_flags:
  "map_of (snd (keepLoop G ps keep d)) k = Some True \<longleftrightarrow>
     map_of d k = Some True \<or> k \<in> markedKeys G ps d"
proof (induction ps arbitrary: keep d)
  case Nil
  then show ?case by (simp add: markedKeys_Nil)
next
  case (Cons a ps)
  obtain p item where a: "a = (p, item)" by (cases a)
  show ?case
  proof (cases "find (\<lambda>gk. map_of d gk \<noteq> None) (groupKindsFromPath G item)")
    case None
    then show ?thesis
      by (simp add: a Cons.IH markedKeys_Cons del: not_None_eq)
  next
    case (Some gk)
    then have def: "map_of d gk \<noteq> None" by (blast dest: find_SomeD)
    have upd: "map_of (AList.update gk True d) k = Some True \<longleftrightarrow>
        k = gk \<or> map_of d k = Some True"
      by (simp add: AList.update_conv')
    show ?thesis
      by (simp add: a Some Cons.IH markedKeys_Cons markedKeys_update [OF def] upd
          del: not_None_eq) blast
  qed
qed

lemma markedKeys_subset: "markedKeys G ps d \<subseteq> fst ` set d"
proof
  fix k assume "k \<in> markedKeys G ps d"
  then obtain entry where
    "find (\<lambda>k. map_of d k \<noteq> None) (groupKindsFromPath G (snd entry)) = Some k"
    by (auto simp: markedKeys_def simp del: not_None_eq)
  then have "map_of d k \<noteq> None" by (blast dest: find_SomeD)
  then show "k \<in> fst ` set d" by (simp add: map_of_eq_None_iff)
qed











section \<open>Properties of the discovery gate\<close>

lemma raise_raise: "raise T (raise S f) = raise (S \<union> T) f"
  by (auto simp: raise_def fun_eq_iff)

lemma raise_empty: "raise {} f = f"
  by (simp add: raise_def)

lemma markDiscovered_keys: "map fst (fst (markDiscovered g st)) = map fst (fst st)"
  by (cases st) (simp add: markDiscovered_def keys_update_existing)

lemma markDiscovered_map: "map_of (fst (markDiscovered g st)) = raise {g} (map_of (fst st))"
  by (cases st) (auto simp: markDiscovered_def raise_def fun_eq_iff AList.update_conv')

lemma fold_markDiscovered_keys:
  "map fst (fst (fold (\<lambda>r. markDiscovered (h r)) rs st)) = map fst (fst st)"
  by (induction rs arbitrary: st) (simp_all add: markDiscovered_keys)

lemma fold_markDiscovered_map:
  "map_of (fst (fold (\<lambda>r. markDiscovered (h r)) rs st)) = raise (h ` set rs) (map_of (fst st))"
proof (induction rs arbitrary: st)
  case Nil
  then show ?case by (simp add: raise_empty)
next
  case (Cons r rs)
  have "insert (h r) (h ` set rs) = {h r} \<union> h ` set rs" by simp
  then show ?case
    by (simp add: Cons.IH markDiscovered_map raise_raise)
qed

lemma servedPairs_Nil: "servedPairs P [] = {}"
  by (simp add: servedPairs_def)

lemma servedPairs_Cons:
  "servedPairs P (l # ls) =
     (case P (GroupVersion l) of
        Inl err \<Rightarrow> {}
      | Inr gv \<Rightarrow> (\<lambda>r. GroupKind (gvGroup gv) (APIResource_Kind r)) ` set (APIResources l))
     \<union> servedPairs P ls"
  by (auto simp: servedPairs_def split: sum.splits)

lemma scanResourceList_keys: "map fst (fst (scanResourceList P l st)) = map fst (fst st)"
  by (simp add: scanResourceList_def fold_markDiscovered_keys split: sum.splits)

lemma scanResourceList_map:
  "map_of (fst (scanResourceList P l st)) = raise (servedPairs P [l]) (map_of (fst st))"
  by (simp add: scanResourceList_def fold_markDiscovered_map servedPairs_Cons servedPairs_Nil
      raise_empty split: sum.splits)

lemma fold_scanResourceList_keys:
  "map fst (fst (fold (scanResourceList P) ls st)) = map fst (fst st)"
  by (induction ls arbitrary: st) (simp_all add: scanResourceList_keys)

lemma servedPairs_split: "servedPairs P (l # ls) = servedPairs P [l] \<union> servedPairs P ls"
  by (simp add: servedPairs_Cons servedPairs_Nil)

lemma fold_scanResourceList_map:
  "map_of (fst (fold (scanResourceList P) ls st)) = raise (servedPairs P ls) (map_of (fst st))"
proof (induction ls arbitrary: st)
  case Nil
  then show ?case by (simp add: servedPairs_Nil raise_empty)
next
  case (Cons l ls)
  show ?case
    by (simp add: Cons.IH scanResourceList_map raise_raise servedPairs_split [of P l ls])
qed

lemma waitFunc_failed_call: "waitFunc P m (Inl err) = ((False, None), m)"
  by (simp add: waitFunc_def)

lemma waitFunc_no_error: "snd (fst (waitFunc P m p)) = None"
  by (simp add: waitFunc_def split: sum.splits prod.splits)

lemma waitFunc_keys: "map fst (snd (waitFunc P m p)) = map fst m"
proof (cases p)
  case (Inl e)
  then show ?thesis by (simp add: waitFunc_def)
next
  case (Inr ls)
  have "map fst (fst (fold (scanResourceList P) ls (m, False))) = map fst m"
    by (simp add: fold_scanResourceList_keys)
  then show ?thesis
    using Inr by (auto simp: waitFunc_def split: prod.splits)
qed

lemma waitFunc_map:
  "map_of (snd (waitFunc P m (Inr ls))) = raise (servedPairs P ls) (map_of m)"
proof -
  have "map_of (fst (fold (scanResourceList P) ls (m, False))) = raise (servedPairs P ls) (map_of m)"
    by (simp add: fold_scanResourceList_map)
  then show ?thesis
    by (auto simp: waitFunc_def split: prod.splits)
qed

lemma all_found_conv:
  assumes "distinct (map fst m)"
  shows "list_all snd m \<longleftrightarrow> {k. map_of m k = Some False} = {}"
proof
  assume all: "list_all snd m"
  show "{k. map_of m k = Some False} = {}"
  proof (rule ccontr)
    assume "{k. map_of m k = Some False} \<noteq> {}"
    then obtain k where "map_of m k = Some False" by blast
    then have "(k, False) \<in> set m" by (rule map_of_SomeD)
    with all show False by (auto simp: list_all_iff)
  qed
next
  assume none: "{k. map_of m k = Some False} = {}"
  show "list_all snd m"
    unfolding list_all_iff
  proof
    fix e assume e: "e \<in> set m"
    then have "map_of m (fst e) = Some (snd e)"
      using assms by (simp add: map_of_eq_Some_iff)
    with none show "snd e" by (cases "snd e") auto
  qed
qed

lemma waitFunc_done:
  "fst (fst (waitFunc P m (Inr ls))) = list_all snd (snd (waitFunc P m (Inr ls)))"
  by (auto simp: waitFunc_def split: prod.splits)

lemma raise_False: "raise S f k = Some False \<longleftrightarrow> f k = Some False \<and> k \<notin> S"
  by (auto simp: raise_def)

lemma observed_Nil: "observed P [] = {}"
  by (simp add: observed_def)

lemma observed_Cons_Inl: "observed P (Inl e # ps) = observed P ps"
  by (auto simp: observed_def)

lemma observed_Cons_Inr: "observed P (Inr l # ps) = servedPairs P l \<union> observed P ps"
  by (auto simp: observed_def)

lemma stateAfter_keys: "map fst (stateAfter P m ps) = map fst m"
  unfolding stateAfter_def
  by (induction ps arbitrary: m) (simp_all add: waitFunc_keys)

lemma stateAfter_Cons:
  "stateAfter P m (p # ps) = stateAfter P (snd (waitFunc P m p)) ps"
  by (simp add: stateAfter_def)

lemma stateAfter_map: "map_of (stateAfter P m ps) = raise (observed P ps) (map_of m)"
proof (induction ps arbitrary: m)
  case Nil
  then show ?case by (simp add: stateAfter_def observed_Nil raise_empty)
next
  case (Cons p ps)
  show ?case
  proof (cases p)
    case (Inl e)
    then show ?thesis
      by (simp add: stateAfter_Cons Cons.IH waitFunc_failed_call observed_Cons_Inl)
  next
    case (Inr l)
    then show ?thesis
      by (simp add: stateAfter_Cons Cons.IH waitFunc_map raise_raise observed_Cons_Inr)
  qed
qed

lemma doneAfter_0:
  assumes "distinct (map fst m)"
  shows "doneAfter P m (p # ps) 0 \<longleftrightarrow> fst (fst (waitFunc P m p))"
proof (cases p)
  case (Inl e)
  then show ?thesis by (simp add: doneAfter_def waitFunc_failed_call)
next
  case (Inr l)
  have dist: "distinct (map fst (snd (waitFunc P m (Inr l))))"
    using assms by (simp add: waitFunc_keys)
  have "fst (fst (waitFunc P m (Inr l))) \<longleftrightarrow>
      {k. map_of (snd (waitFunc P m (Inr l))) k = Some False} = {}"
    by (simp only: waitFunc_done all_found_conv [OF dist])
  also have "\<dots> \<longleftrightarrow> {k. map_of m k = Some False} \<subseteq> servedPairs P l"
    by (auto simp: waitFunc_map raise_False)
  finally show ?thesis
    using Inr by (simp add: doneAfter_def observed_Cons_Inr observed_Nil)
qed

lemma doneAfter_Suc:
  "doneAfter P m (p # ps) (Suc i) \<longleftrightarrow> doneAfter P (snd (waitFunc P m p)) ps i"
proof (cases p)
  case (Inl e)
  then show ?thesis
    by (simp add: doneAfter_def waitFunc_failed_call observed_Cons_Inl)
next
  case (Inr l)
  have "{k. map_of (snd (waitFunc P m (Inr l))) k = Some False} =
      {k. map_of m k = Some False} - servedPairs P l"
    by (auto simp: waitFunc_map raise_False)
  then show ?thesis
    using Inr by (auto simp: doneAfter_def observed_Cons_Inr)
qed

lemma poll_step:
  "PollUntilContextTimeout (waitFunc P) (p # ps) m =
     (if fst (fst (waitFunc P m p)) then (None, snd (waitFunc P m p), 1)
      else (case PollUntilContextTimeout (waitFunc P) ps (snd (waitFunc P m p)) of
              (r, s, n) \<Rightarrow> (r, s, Suc n)))"
proof -
  obtain d e s where w: "waitFunc P m p = ((d, e), s)"
    by (metis prod.collapse)
  have "e = None" using waitFunc_no_error [of P m p] by (simp add: w)
  then show ?thesis by (cases d) (simp_all add: w)
qed

lemma poll_success:
  assumes "distinct (map fst m)" "doneAfter P m ps i" "\<forall>j<i. \<not> doneAfter P m ps j"
  shows "PollUntilContextTimeout (waitFunc P) ps m =
           (None, stateAfter P m (take (Suc i) ps), Suc i)"
  using assms
proof (induction i arbitrary: ps m)
  case 0
  then obtain p ps' where ps: "ps = p # ps'"
    by (cases ps) (auto simp: doneAfter_def)
  have "fst (fst (waitFunc P m p))"
    using "0.prems"(1,2) by (simp add: ps doneAfter_0)
  then show ?case
    by (simp add: ps poll_step stateAfter_def del: PollUntilContextTimeout.simps)
next
  case (Suc i)
  then obtain p ps' where ps: "ps = p # ps'"
    by (cases ps) (auto simp: doneAfter_def)
  let ?m1 = "snd (waitFunc P m p)"
  have "\<not> doneAfter P m (p # ps') 0"
    using Suc.prems(3) by (simp add: ps)
  then have notdone: "\<not> fst (fst (waitFunc P m p))"
    using doneAfter_0 [OF Suc.prems(1), of P p ps'] by simp
  have d1: "distinct (map fst ?m1)"
    using Suc.prems(1) by (simp add: waitFunc_keys)
  have s1: "doneAfter P ?m1 ps' i"
    using Suc.prems(2) by (simp add: ps doneAfter_Suc)
  have n1: "\<forall>j<i. \<not> doneAfter P ?m1 ps' j"
  proof (intro allI impI)
    fix j assume "j < i"
    then have "\<not> doneAfter P m ps (Suc j)" using Suc.prems(3) by simp
    then show "\<not> doneAfter P ?m1 ps' j" by (simp add: ps doneAfter_Suc)
  qed
  show ?case
    using Suc.IH [OF d1 s1 n1] notdone
    by (simp add: ps poll_step stateAfter_Cons del: PollUntilContextTimeout.simps)
qed

lemma poll_timeout:
  assumes "distinct (map fst m)" "\<forall>i. \<not> doneAfter P m ps i"
  shows "PollUntilContextTimeout (waitFunc P) ps m =
           (Some ContextEnded, stateAfter P m ps, length ps)"
  using assms
proof (induction ps arbitrary: m)
  case Nil
  then show ?case by (simp add: stateAfter_def)
next
  case (Cons p ps)
  let ?m1 = "snd (waitFunc P m p)"
  have "\<not> doneAfter P m (p # ps) 0"
    using Cons.prems(2) by blast
  then have notdone: "\<not> fst (fst (waitFunc P m p))"
    using doneAfter_0 [OF Cons.prems(1), of P p ps] by simp
  have d1: "distinct (map fst ?m1)"
    using Cons.prems(1) by (simp add: waitFunc_keys)
  have n1: "\<forall>i. \<not> doneAfter P ?m1 ps i"
  proof
    fix i
    have "\<not> doneAfter P m (p # ps) (Suc i)" using Cons.prems(2) by blast
    then show "\<not> doneAfter P ?m1 ps i" by (simp add: doneAfter_Suc)
  qed
  show ?case
    using Cons.IH [OF d1 n1] notdone
    by (simp add: poll_step stateAfter_Cons del: PollUntilContextTimeout.simps)
qed

lemma init_found_map:
  "map_of (map (\<lambda>e. (fst e, False)) d) k = (if k \<in> fst ` set d then Some False else None)"
  by (induction d) auto

lemma init_found_keys: "map fst (map (\<lambda>e. (fst e, False)) d) = map fst d"
  by simp

lemma doneAfter_init:
  "doneAfter P (map (\<lambda>e. (fst e, False)) d) polls i \<longleftrightarrow> satisfiedAt P d polls i"
proof -
  have "{k. map_of (map (\<lambda>e. (fst e, False)) d) k = Some False} = fst ` set d"
    by (auto simp: init_found_map)
  then show ?thesis
    by (simp add: doneAfter_def satisfiedAt_def)
qed

lemma notFound_by_lookup:
  "distinct (map fst s) \<Longrightarrow>
     notFoundGroupKinds s = filter (\<lambda>k. map_of s k = Some False) (map fst s)"
proof (induction s)
  case Nil
  then show ?case by (simp add: notFoundGroupKinds_def)
next
  case (Cons a s)
  obtain k b where a: "a = (k, b)" by (cases a)
  from Cons.prems have notin: "k \<notin> fst ` set s" and dist: "distinct (map fst s)"
    by (simp_all add: a)
  have tail: "filter (\<lambda>x. map_of ((k, b) # s) x = Some False) (map fst s) =
      filter (\<lambda>x. map_of s x = Some False) (map fst s)"
    using notin by (intro filter_cong) auto
  have "notFoundGroupKinds (a # s) = (if b then [] else [k]) @ notFoundGroupKinds s"
    by (simp add: notFoundGroupKinds_def a)
  also have "\<dots> = (if b then [] else [k]) @ filter (\<lambda>x. map_of s x = Some False) (map fst s)"
    by (simp add: Cons.IH [OF dist])
  also have "\<dots> = filter (\<lambda>x. map_of (a # s) x = Some False) (map fst (a # s))"
    using tail by (simp add: a)
  finally show ?case .
qed

lemma stillMissing_after:
  assumes "distinct (map fst d)"
  shows "notFoundGroupKinds (stateAfter P (map (\<lambda>e. (fst e, False)) d) polls) =
           filter (\<lambda>k. k \<notin> observed P polls) (map fst d)"
proof -
  let ?s = "stateAfter P (map (\<lambda>e. (fst e, False)) d) polls"
  have keys: "map fst ?s = map fst d"
    by (simp only: stateAfter_keys init_found_keys)
  then have "distinct (map fst ?s)" using assms by simp
  then have "notFoundGroupKinds ?s = filter (\<lambda>k. map_of ?s k = Some False) (map fst d)"
    by (simp add: notFound_by_lookup keys)
  also have "\<dots> = filter (\<lambda>k. k \<notin> observed P polls) (map fst d)"
    by (intro filter_cong) (auto simp: stateAfter_map raise_False init_found_map)
  finally show ?thesis .
qed

lemma poll_keys:
  "map fst (fst (snd (PollUntilContextTimeout (waitFunc P) ps m))) = map fst m"
proof (induction ps arbitrary: m)
  case Nil
  then show ?case by simp
next
  case (Cons p ps)
  obtain r s n where rec:
    "PollUntilContextTimeout (waitFunc P) ps (snd (waitFunc P m p)) = (r, s, n)"
    by (metis prod.collapse)
  have "map fst s = map fst m"
    using Cons.IH [of "snd (waitFunc P m p)"] by (simp add: rec waitFunc_keys)
  then show ?case
    by (simp add: poll_step rec waitFunc_keys del: PollUntilContextTimeout.simps)
qed

lemma getDesiredPaths_state:
  "snd (getDesiredPaths G sw d) =
     (case Paths sw of None \<Rightarrow> d | Some ps \<Rightarrow> snd (keepLoop G ps [] d))"
  by (simp add: getDesiredPaths_def split: option.splits prod.splits)

text \<open>
  Claim C4, as the code has it. The gate returns without error at the first cycle whose
  discovery call succeeds and by which every desired key has been served; a cycle whose
  discovery call fails reports "not done" and leaves the flags as they are; and when no
  cycle of the budget satisfies the gate, it returns the error that wraps the end of the
  poll, after all cycles, with every key still missing written to the log.
\<close>

theorem waitForDesiredResources_outcome:
  assumes "distinct (map fst desired)"
  shows "(\<forall>i. satisfiedAt P desired polls i \<and> (\<forall>j<i. \<not> satisfiedAt P desired polls j) \<longrightarrow>
            wait_err (waitForDesiredResources P desired polls) = None
            \<and> cycles (waitForDesiredResources P desired polls) = Suc i)
       \<and> ((\<forall>i. \<not> satisfiedAt P desired polls i) \<longrightarrow>
            wait_err (waitForDesiredResources P desired polls)
              = Some (NotAllDiscoverable ContextEnded)
            \<and> cycles (waitForDesiredResources P desired polls) = length polls
            \<and> stillMissingLogged (waitForDesiredResources P desired polls)
              = Some (filter (\<lambda>k. k \<notin> observed P polls) (map fst desired)))
       \<and> (\<forall>m err. waitFunc P m (Inl err) = ((False, None), m))"
proof -
  let ?m0 = "map (\<lambda>e. (fst e, False)) desired"
  have dist: "distinct (map fst ?m0)" using assms by (simp only: init_found_keys)
  have ok: "wait_err (waitForDesiredResources P desired polls) = None
      \<and> cycles (waitForDesiredResources P desired polls) = Suc i"
    if "satisfiedAt P desired polls i" "\<forall>j<i. \<not> satisfiedAt P desired polls j" for i
  proof -
    have "PollUntilContextTimeout (waitFunc P) polls ?m0 =
        (None, stateAfter P ?m0 (take (Suc i) polls), Suc i)"
      using that by (intro poll_success [OF dist]) (simp_all add: doneAfter_init)
    then show ?thesis
      by (simp add: waitForDesiredResources_def)
  qed
  have timeout: "wait_err (waitForDesiredResources P desired polls)
        = Some (NotAllDiscoverable ContextEnded)
      \<and> cycles (waitForDesiredResources P desired polls) = length polls
      \<and> stillMissingLogged (waitForDesiredResources P desired polls)
        = Some (filter (\<lambda>k. k \<notin> observed P polls) (map fst desired))"
    if "\<forall>i. \<not> satisfiedAt P desired polls i"
  proof -
    have "PollUntilContextTimeout (waitFunc P) polls ?m0 =
        (Some ContextEnded, stateAfter P ?m0 polls, length polls)"
      using that by (intro poll_timeout [OF dist]) (simp add: doneAfter_init)
    then show ?thesis
      by (simp add: waitForDesiredResources_def stillMissing_after [OF assms])
  qed
  show ?thesis
    using ok timeout waitFunc_failed_call by blast
qed

text \<open>
  Claim C5, as the code has it. In a poll cycle the gate raises, in its own map of found
  flags, the flag of every served pair that is a key of that map, and changes nothing
  for the other pairs; the keys of that map are those of the desired set; the gate
  leaves the caller's desired set as it is; and the filter keeps the keys of the desired
  set and never turns a true flag back to false.
\<close>

theorem found_flags_only_raised:
  "map fst (snd (waitFunc P GKfound (Inr l))) = map fst GKfound
   \<and> (\<forall>k. map_of (snd (waitFunc P GKfound (Inr l))) k =
         (if k \<in> servedPairs P l \<and> map_of GKfound k \<noteq> None then Some True
          else map_of GKfound k))
   \<and> map fst (GKfound_final (waitForDesiredResources P desired polls)) = map fst desired
   \<and> desiredResources_after (waitForDesiredResources P desired polls) = desired
   \<and> map fst (snd (getDesiredPaths G sw desired)) = map fst desired
   \<and> (\<forall>k. map_of desired k = Some True \<longrightarrow>
         map_of (snd (getDesiredPaths G sw desired)) k = Some True)"
proof -
  have a: "map fst (snd (waitFunc P GKfound (Inr l))) = map fst GKfound"
    by (rule waitFunc_keys)
  have b: "\<forall>k. map_of (snd (waitFunc P GKfound (Inr l))) k =
         (if k \<in> servedPairs P l \<and> map_of GKfound k \<noteq> None then Some True
          else map_of GKfound k)"
    by (simp add: waitFunc_map raise_def)
  obtain r s n where pr:
    "PollUntilContextTimeout (waitFunc P) polls (map (\<lambda>e. (fst e, False)) desired) = (r, s, n)"
    by (metis prod.collapse)
  have "map fst s = map fst desired"
    using poll_keys [of P polls "map (\<lambda>e. (fst e, False)) desired"]
    by (simp add: pr comp_def)
  then have c: "map fst (GKfound_final (waitForDesiredResources P desired polls)) = map fst desired"
    by (cases r) (simp_all add: waitForDesiredResources_def pr)
  have d: "desiredResources_after (waitForDesiredResources P desired polls) = desired"
    by (cases r) (simp_all add: waitForDesiredResources_def pr)
  have e: "map fst (snd (getDesiredPaths G sw desired)) = map fst desired"
    by (simp add: getDesiredPaths_state keepLoop_keys split: option.splits)
  have f: "\<forall>k. map_of desired k = Some True \<longrightarrow>
         map_of (snd (getDesiredPaths G sw desired)) k = Some True"
    by (simp add: getDesiredPaths_state keepLoop_flags split: option.splits)
  show ?thesis
    using a b c d e f by blast
qed

theorem waitForDesiredResources_outcome_witness:
  "satisfiedAt sampleParseGroupVersion [(key1, False), (key3, False)]
      [Inr [serves ''a.io/v1'' ''Alpha''], Inl ''down'', Inr [serves ''c.io/v1'' ''Gamma''], Inr []] 2
   \<and> wait_err (waitForDesiredResources sampleParseGroupVersion [(key1, False), (key3, False)]
        [Inr [serves ''a.io/v1'' ''Alpha''], Inl ''down'', Inr [serves ''c.io/v1'' ''Gamma''], Inr []])
      = None
   \<and> cycles (waitForDesiredResources sampleParseGroupVersion [(key1, False), (key3, False)]
        [Inr [serves ''a.io/v1'' ''Alpha''], Inl ''down'', Inr [serves ''c.io/v1'' ''Gamma''], Inr []])
      = 3
   \<and> wait_err (waitForDesiredResources sampleParseGroupVersion [(key1, False), (key2, False)]
        [Inl ''down'', Inr [serves ''a.io/v1'' ''Alpha'']])
      = Some (NotAllDiscoverable ContextEnded)
   \<and> cycles (waitForDesiredResources sampleParseGroupVersion [(key1, False), (key2, False)]
        [Inl ''down'', Inr [serves ''a.io/v1'' ''Alpha'']])
      = 2
   \<and> stillMissingLogged (waitForDesiredResources sampleParseGroupVersion [(key1, False), (key2, False)]
        [Inl ''down'', Inr [serves ''a.io/v1'' ''Alpha'']])
      = Some [key2]"
proof -
  let ?P = sampleParseGroupVersion
  let ?d = "[(key1, False), (key3, False)]"
  let ?polls = "[Inr [serves ''a.io/v1'' ''Alpha''], Inl ''down'',
      Inr [serves ''c.io/v1'' ''Gamma''], Inr []]"
  note ev = satisfiedAt_def observed_Cons_Inr observed_Cons_Inl observed_Nil
    servedPairs_Cons servedPairs_Nil sampleParseGroupVersion_def serves_def
    key1_def key2_def key3_def
  have dist: "distinct (map fst ?d)" by (simp add: key1_def key3_def)
  have s2: "satisfiedAt ?P ?d ?polls 2"
    by (simp add: ev numeral_2_eq_2)
  have n0: "\<not> satisfiedAt ?P ?d ?polls 0" by (simp add: ev)
  have n1: "\<not> satisfiedAt ?P ?d ?polls 1" by (simp add: ev)
  have first: "\<forall>j<2. \<not> satisfiedAt ?P ?d ?polls j"
    using n0 n1 by (auto simp: numeral_2_eq_2 less_Suc_eq)
  have ok: "wait_err (waitForDesiredResources ?P ?d ?polls) = None
      \<and> cycles (waitForDesiredResources ?P ?d ?polls) = Suc 2"
    using waitForDesiredResources_outcome [OF dist, of ?P ?polls] s2 first by blast
  let ?e = "[(key1, False), (key2, False)]"
  let ?short = "[Inl ''down'', Inr [serves ''a.io/v1'' ''Alpha'']]"
  have dist2: "distinct (map fst ?e)" by (simp add: key1_def key2_def)
  have never: "\<forall>i. \<not> satisfiedAt ?P ?e ?short i"
  proof
    fix i :: nat
    have "i = 0 \<or> i = 1 \<or> 2 \<le> i" by arith
    then show "\<not> satisfiedAt ?P ?e ?short i"
      by (auto simp: ev)
  qed
  have miss: "filter (\<lambda>k. k \<notin> observed ?P ?short) (map fst ?e) = [key2]"
    by (simp add: ev)
  have timeout: "wait_err (waitForDesiredResources ?P ?e ?short)
        = Some (NotAllDiscoverable ContextEnded)
      \<and> cycles (waitForDesiredResources ?P ?e ?short) = length ?short
      \<and> stillMissingLogged (waitForDesiredResources ?P ?e ?short) = Some [key2]"
    using waitForDesiredResources_outcome [OF dist2, of ?P ?short] never miss by simp
  show ?thesis
    using s2 ok timeout by simp
qed

theorem waitForDesiredResources_outcome_counterexample:
  "wait_err (waitForDesiredResources sampleParseGroupVersion [(key1, False)] [Inl ''down'', Inr []])
      = Some (NotAllDiscoverable ContextEnded)
   \<and> wait_err (waitForDesiredResources sampleParseGroupVersion [(key2, False)] [Inl ''down'', Inr []])
      = Some (NotAllDiscoverable ContextEnded)
   \<and> stillMissingLogged (waitForDesiredResources sampleParseGroupVersion [(key1, False)]
        [Inl ''down'', Inr []]) = Some [key1]
   \<and> stillMissingLogged (waitForDesiredResources sampleParseGroupVersion [(key2, False)]
        [Inl ''down'', Inr []]) = Some [key2]
   \<and> key1 \<noteq> key2"
  by code_simp

theorem found_flags_only_raised_counterexample:
  "wait_err (waitForDesiredResources sampleParseGroupVersion [(key1, False)]
        [Inr [serves ''a.io/v1'' ''Alpha'']]) = None
   \<and> GKfound_final (waitForDesiredResources sampleParseGroupVersion [(key1, False)]
        [Inr [serves ''a.io/v1'' ''Alpha'']]) = [(key1, True)]
   \<and> desiredResources_after (waitForDesiredResources sampleParseGroupVersion [(key1, False)]
        [Inr [serves ''a.io/v1'' ''Alpha'']]) = [(key1, False)]"
  by code_simp

theorem found_flags_only_raised_witness:
  "map_of (snd (waitFunc sampleParseGroupVersion [(key1, False), (key2, False)]
       (Inr [serves ''a.io/v1'' ''Alpha'', serves ''c.io/v1'' ''Gamma'']))) key1 = Some True
   \<and> map_of (snd (waitFunc sampleParseGroupVersion [(key1, False), (key2, False)]
       (Inr [serves ''a.io/v1'' ''Alpha'', serves ''c.io/v1'' ''Gamma'']))) key3 = None
   \<and> map_of (snd (getDesiredPaths GetObject docOnlyC [(key1, True), (key3, False)])) key1
       = Some True"
proof -
  note t = found_flags_only_raised [of sampleParseGroupVersion "[(key1, False), (key2, False)]"
      "[serves ''a.io/v1'' ''Alpha'', serves ''c.io/v1'' ''Gamma'']"
      "[(key1, True), (key3, False)]" "[]" GetObject docOnlyC]
  note ev = servedPairs_Cons servedPairs_Nil sampleParseGroupVersion_def serves_def
    key1_def key2_def key3_def
  let ?m' = "snd (waitFunc sampleParseGroupVersion [(key1, False), (key2, False)]
       (Inr [serves ''a.io/v1'' ''Alpha'', serves ''c.io/v1'' ''Gamma'']))"
  let ?S = "servedPairs sampleParseGroupVersion
       [serves ''a.io/v1'' ''Alpha'', serves ''c.io/v1'' ''Gamma'']"
  from t have "map_of ?m' key1 =
      (if key1 \<in> ?S \<and> map_of [(key1, False), (key2, False)] key1 \<noteq> None
       then Some True else map_of [(key1, False), (key2, False)] key1)"
    by blast
  then have a: "map_of ?m' key1 = Some True"
    by (simp add: ev)
  from t have "map_of ?m' key3 =
      (if key3 \<in> ?S \<and> map_of [(key1, False), (key2, False)] key3 \<noteq> None
       then Some True else map_of [(key1, False), (key2, False)] key3)"
    by blast
  then have b: "map_of ?m' key3 = None"
    by (simp add: ev)
  from t have "map_of [(key1, True), (key3, False)] key1 = Some True \<longrightarrow>
      map_of (snd (getDesiredPaths GetObject docOnlyC [(key1, True), (key3, False)])) key1
       = Some True"
    by blast
  then have c: "map_of (snd (getDesiredPaths GetObject docOnlyC [(key1, True), (key3, False)])) key1
       = Some True"
    by simp
  show ?thesis using a b c by blast
qed

section \<open>Properties of the kubeconfig extractor\<close>

lemma poll_config_prefix:
  assumes "\<forall>a \<in> set pre. a = CopyNotFound"
  shows "PollUntilContextTimeout configFunc (pre @ rest) None =
           (case PollUntilContextTimeout configFunc rest None of
              (r, s, n) \<Rightarrow> (r, s, length pre + n))"
  using assms
proof (induction pre)
  case Nil
  then show ?case by simp
next
  case (Cons a pre)
  then have a: "a = CopyNotFound" and rest: "\<forall>a \<in> set pre. a = CopyNotFound"
    by simp_all
  show ?case
    using Cons.IH [OF rest]
    by (simp add: a configFunc_def split: prod.splits)
qed

text \<open>
  Claim C7, as the code has it. After any number of "not found" answers, each of which is
  followed by another cycle: a copy that succeeds with an archive that has no first entry
  fails at once with the "kubeConfig is empty" error, and any other copy error fails at
  once; neither is followed by a further copy call. When every cycle of the budget
  answers "not found", the extractor fails after the last cycle.
\<close>

theorem getKubeConfigFromContainer_outcomes:
  assumes "\<forall>a \<in> set pre. a = CopyNotFound"
  shows "getKubeConfigFromContainer (pre @ CopyOK NoEntry # rest)
           = (Inl KubeConfigEmpty, Suc (length pre))
       \<and> getKubeConfigFromContainer (pre @ CopyFailed err # rest)
           = (Inl FailedAfterWaitTime, Suc (length pre))
       \<and> getKubeConfigFromContainer pre = (Inl FailedAfterWaitTime, length pre)"
proof -
  have a: "getKubeConfigFromContainer (pre @ CopyOK NoEntry # rest)
      = (Inl KubeConfigEmpty, Suc (length pre))"
    by (simp add: getKubeConfigFromContainer_def poll_config_prefix [OF assms] configFunc_def)
  have b: "getKubeConfigFromContainer (pre @ CopyFailed err # rest)
      = (Inl FailedAfterWaitTime, Suc (length pre))"
    by (simp add: getKubeConfigFromContainer_def poll_config_prefix [OF assms] configFunc_def)
  have c: "getKubeConfigFromContainer pre = (Inl FailedAfterWaitTime, length pre)"
    using poll_config_prefix [OF assms, of "[]"]
    by (simp add: getKubeConfigFromContainer_def)
  show ?thesis using a b c by blast
qed

theorem getKubeConfigFromContainer_outcomes_witness:
  "getKubeConfigFromContainer [CopyNotFound, CopyNotFound, CopyOK NoEntry, CopyNotFound]
      = (Inl KubeConfigEmpty, 3)
   \<and> getKubeConfigFromContainer [CopyNotFound, CopyNotFound, CopyFailed ''no such container'',
        CopyOK NoEntry] = (Inl FailedAfterWaitTime, 3)
   \<and> getKubeConfigFromContainer [CopyNotFound, CopyNotFound] = (Inl FailedAfterWaitTime, 2)"
proof -
  have h: "\<forall>a \<in> set [CopyNotFound, CopyNotFound]. a = CopyNotFound" by simp
  show ?thesis
    using getKubeConfigFromContainer_outcomes [OF h, of "[CopyNotFound]" "''no such container''"]
      getKubeConfigFromContainer_outcomes [OF h, of "[CopyOK NoEntry]" "''no such container''"]
    by simp
qed

theorem getKubeConfigFromContainer_outcomes_counterexample:
  "getKubeConfigFromContainer [CopyNotFound, CopyOK (FirstEntry (Inr []))] = (Inr [], 2)"
  by code_simp

section \<open>Properties of the orchestrator\<close>

lemma start_ok:
  "fst (start w r) = None \<longleftrightarrow>
     pullErr w = None \<and> (\<exists>cid. createAns w = Inr cid) \<and> startErr w = None
     \<and> waitContainerErr w = None"
  by (auto simp: start_def split: option.splits sum.splits)

lemma start_no_stop: "CallStop \<notin> set (snd (start w r))"
  by (auto simp: start_def split: option.splits sum.splits)

lemma afterDefer_err: "fst (afterDefer w) = firstError (laterStageErrors w)"
  by (auto simp: afterDefer_def laterStageErrors_def split: option.splits sum.splits)

lemma afterDefer_no_stop: "CallStop \<notin> set (snd (afterDefer w))"
  by (auto simp: afterDefer_def split: option.splits sum.splits)

lemma count_list_absent: "x \<notin> set xs \<Longrightarrow> count_list xs x = 0"
  by (induction xs) auto

lemma run_started:
  assumes "containerStarted f w"
  shows "\<exists>cs. calls (run f w) = cs @ [CallStop] \<and> CallStop \<notin> set cs"
    and "run_err (run f w) =
           (case firstError (laterStageErrors w) of
              Some e \<Rightarrow> Some e
            | None \<Rightarrow> map_option FromStop (stopErr w))"
proof -
  from assms obtain r where
    flags: "\<not> (rancherDevImage f \<noteq> [] \<and> rancherVersion f \<noteq> [])" and
    parse: "parseErr w = None" and
    new: "newRancherDockerContainer (clientErr w) (uuid w) (rancherDevImage f)
             (rancherVersion f) (hostPortHTTP f) (flag_hostPortHTTPS f) = Inr r" and
    st: "fst (start w r) = None"
    unfolding containerStarted_def start_ok by blast
  obtain cs where s: "start w r = (None, cs)"
    using st by (cases "start w r") simp
  obtain err cs' where a: "afterDefer w = (err, cs')"
    by (cases "afterDefer w")
  have cs: "CallStop \<notin> set cs" using start_no_stop [of w r] by (simp add: s)
  have cs': "CallStop \<notin> set cs'" using afterDefer_no_stop [of w] by (simp add: a)
  have err: "err = firstError (laterStageErrors w)"
    using afterDefer_err [of w] by (simp add: a)
  have calls: "calls (run f w) = ([CallParseGroupKind, CallNewContainer] @ cs @ cs') @ [CallStop]"
    using flags by (simp add: run_def parse new s a)
  show "\<exists>cs. calls (run f w) = cs @ [CallStop] \<and> CallStop \<notin> set cs"
    using calls cs cs' by (intro exI [of _ "[CallParseGroupKind, CallNewContainer] @ cs @ cs'"]) simp
  show "run_err (run f w) =
      (case firstError (laterStageErrors w) of
         Some e \<Rightarrow> Some e
       | None \<Rightarrow> map_option FromStop (stopErr w))"
    using flags by (auto simp: run_def parse new s a err split: option.splits)
qed

lemma run_started_stops_once:
  assumes "containerStarted f w"
  shows "count_list (calls (run f w)) CallStop = 1 \<and> last (calls (run f w)) = CallStop"
proof -
  from run_started(1) [OF assms] obtain cs where
    cs: "calls (run f w) = cs @ [CallStop]" "CallStop \<notin> set cs" by blast
  show ?thesis
    by (simp add: cs count_list_absent)
qed

lemma run_start_wait_failure:
  assumes "\<not> (rancherDevImage f \<noteq> [] \<and> rancherVersion f \<noteq> [])" "parseErr w = None"
    and "newRancherDockerContainer (clientErr w) (uuid w) (rancherDevImage f)
           (rancherVersion f) (hostPortHTTP f) (flag_hostPortHTTPS f) = Inr r"
    and "pullErr w = None" "createAns w = Inr cid" "startErr w = None"
    and "waitContainerErr w = Some e"
  shows "calls (run f w) =
           [CallParseGroupKind, CallNewContainer, CallImagePull,
            CallContainerCreate (createRequest r), CallContainerStart, CallWaitForContainer]"
    and "run_err (run f w) = Some (FailedStartRancherContainer e)"
  using assms by (simp_all add: run_def start_def)

text \<open>
  Claim C8 at a run in which the container is created and started and is then not reported
  running before the wait ends. The deferred stop is registered only after \<^verbatim>\<open>start\<close>
  has returned without error, so this run returns the error of \<^verbatim>\<open>start\<close> and never
  calls stop: the started container is left behind. The same holds of every run that
  fails at this step (lemma \<open>run_start_wait_failure\<close>), while on every exit that follows
  a successful start stop is called exactly once and the first error is returned
  (lemmas \<open>run_started\<close> and \<open>run_started_stops_once\<close>).
\<close>

theorem run_leaves_started_container:
  "calls (run (sampleFlags ''8080'' ''8443'') (goodWorld\<lparr>waitContainerErr := Some ''not running''\<rparr>))
      = [CallParseGroupKind, CallNewContainer, CallImagePull,
         CallContainerCreate (createRequest
           \<lparr>image = ''rancher/rancher:latest'', containerName = ''rancher-crd-swagger0000'',
            hostPort = ''8080'', hostPortHTTPS = ''8443'', containerID = []\<rparr>),
         CallContainerStart, CallWaitForContainer]
   \<and> run_err (run (sampleFlags ''8080'' ''8443'') (goodWorld\<lparr>waitContainerErr := Some ''not running''\<rparr>))
      = Some (FailedStartRancherContainer ''not running'')
   \<and> count_list (calls (run (sampleFlags ''8080'' ''8443'')
        (goodWorld\<lparr>waitContainerErr := Some ''not running''\<rparr>))) CallStop = 0"
  by code_simp

section \<open>Properties of the construction of the container\<close>

text \<open>
  Claim C10, as the code has it. For every configuration in which the HTTP host port and
  the HTTPS host port are the same after the defaults are filled in, the construction of
  the container fails, the run returns an error, and no create call is issued.
\<close>

theorem equal_host_ports_rejected:
  assumes "(if hostPortHTTP f = [] then defaultHostPort else hostPortHTTP f) =
           (if flag_hostPortHTTPS f = [] then defaultHostPortHTTPS else flag_hostPortHTTPS f)"
  shows "(\<exists>err. newRancherDockerContainer c u (rancherDevImage f) (rancherVersion f)
            (hostPortHTTP f) (flag_hostPortHTTPS f) = Inl err)
       \<and> run_err (run f w) \<noteq> None
       \<and> (\<forall>req. CallContainerCreate req \<notin> set (calls (run f w)))"
proof -
  have new: "\<exists>err. newRancherDockerContainer c u (rancherDevImage f) (rancherVersion f)
            (hostPortHTTP f) (flag_hostPortHTTPS f) = Inl err" for c u
    using assms by (cases c) (simp_all add: newRancherDockerContainer_def Let_def)
  then obtain err where e:
    "newRancherDockerContainer (clientErr w) (uuid w) (rancherDevImage f) (rancherVersion f)
            (hostPortHTTP f) (flag_hostPortHTTPS f) = Inl err"
    by blast
  have "run_err (run f w) \<noteq> None \<and> (\<forall>req. CallContainerCreate req \<notin> set (calls (run f w)))"
    by (cases "parseErr w") (auto simp: run_def e)
  then show ?thesis using new by blast
qed

theorem equal_host_ports_rejected_witness:
  "(\<exists>err. newRancherDockerContainer None ''0000'' [] [] [] ''80'' = Inl err)
   \<and> run_err (run (sampleFlags [] ''80'') goodWorld) \<noteq> None
   \<and> (\<forall>req. CallContainerCreate req \<notin> set (calls (run (sampleFlags [] ''80'') goodWorld)))"
proof -
  have h: "(if hostPortHTTP (sampleFlags [] ''80'') = [] then defaultHostPort
            else hostPortHTTP (sampleFlags [] ''80'')) =
           (if flag_hostPortHTTPS (sampleFlags [] ''80'') = [] then defaultHostPortHTTPS
            else flag_hostPortHTTPS (sampleFlags [] ''80''))"
    by (simp add: sampleFlags_def defaultHostPort_def)
  show ?thesis
    using equal_host_ports_rejected [OF h, of None "''0000''" goodWorld]
    by (simp add: sampleFlags_def)
qed

theorem equal_host_ports_rejected_counterexample:
  "newRancherDockerContainer None ''0000'' [] [] ''6443'' ''443''
      = Inr \<lparr>image = ''rancher/rancher:latest'', containerName = ''rancher-crd-swagger0000'',
             hostPort = ''6443'', hostPortHTTPS = ''443'', containerID = []\<rparr>
   \<and> boundHostPorts (createRequest
        \<lparr>image = ''rancher/rancher:latest'', containerName = ''rancher-crd-swagger0000'',
         hostPort = ''6443'', hostPortHTTPS = ''443'', containerID = []\<rparr>)
      = [''6443'', ''443'', ''6443'']
   \<and> CallContainerCreate (createRequest
        \<lparr>image = ''rancher/rancher:latest'', containerName = ''rancher-crd-swagger0000'',
         hostPort = ''6443'', hostPortHTTPS = ''443'', containerID = []\<rparr>)
      \<in> set (calls (run (sampleFlags ''6443'' ''443'') goodWorld))
   \<and> run_err (run (sampleFlags ''6443'' ''443'') goodWorld) = None"
  by code_simp

section \<open>Properties of the client construction\<close>

lemma IndexByte_first: "c \<notin> set a \<Longrightarrow> IndexByte (a @ c # b) c = Some (length a)"
  by (simp add: IndexByte_def takeWhile_append)

lemma takeWhile_all: "c \<notin> set b \<Longrightarrow> takeWhile (\<lambda>x. x \<noteq> c) (b @ c # a) = b"
  by (induction b) auto

lemma LastIndexByte_last: "c \<notin> set b \<Longrightarrow> LastIndexByte (a @ c # b) c = Some (length a)"
proof -
  assume "c \<notin> set b"
  then have "takeWhile (\<lambda>x. x \<noteq> c) (rev b @ c # rev a) = rev b"
    by (intro takeWhile_all) simp
  then show ?thesis
    by (simp add: LastIndexByte_def)
qed

lemma LastIndexByte_None: "c \<notin> set s \<Longrightarrow> LastIndexByte s c = None"
  by (simp add: LastIndexByte_def)

lemma SplitHostPort_no_colon: "CHR '':'' \<notin> set hostport \<Longrightarrow> SplitHostPort hostport = Inl MissingPort"
  by (simp add: SplitHostPort_def LastIndexByte_None)

lemma before_first_close:
  assumes "IndexByte hp c = Some e"
  shows "c \<notin> set (take (e - 1) (drop 1 hp))"
proof -
  from assms have e: "e = length (takeWhile (\<lambda>x. x \<noteq> c) hp)"
    by (auto simp: IndexByte_def split: if_splits)
  have "take e hp = takeWhile (\<lambda>x. x \<noteq> c) hp"
    unfolding e by (rule takeWhile_eq_take [symmetric])
  then have "c \<notin> set (take e hp)"
    by (auto dest: set_takeWhileD)
  moreover have "take (e - 1) (drop 1 hp) = drop 1 (take e hp)"
    by (simp add: drop_take)
  ultimately show ?thesis
    by (metis in_set_dropD)
qed

lemma SplitHostPort_host:
  assumes "SplitHostPort hp = Inr (h, p)"
  shows "CHR ''['' \<notin> set h \<and> CHR '']'' \<notin> set h"
proof (cases "hp ! 0 = CHR ''[''")
  case True
  from assms True obtain i e where
    e: "IndexByte hp CHR '']'' = Some e" and
    h: "h = take (e - 1) (drop 1 hp)" and
    op: "CHR ''['' \<notin> set (drop 1 hp)"
    by (auto simp: SplitHostPort_def Let_def split: option.splits if_splits)
  have "CHR '']'' \<notin> set h"
    unfolding h by (rule before_first_close [OF e])
  moreover have "CHR ''['' \<notin> set h"
    using op unfolding h by (meson in_set_takeD)
  ultimately show ?thesis by simp
next
  case False
  from assms False obtain i where
    h: "h = take i hp" and
    op: "CHR ''['' \<notin> set hp" and cl: "CHR '']'' \<notin> set hp"
    by (auto simp: SplitHostPort_def Let_def split: option.splits if_splits)
  show ?thesis
    using op cl unfolding h by (meson in_set_takeD)
qed

lemma SplitHostPort_Join:
  assumes h: "CHR ''['' \<notin> set h" "CHR '']'' \<notin> set h"
    and p: "CHR '':'' \<notin> set port" "CHR ''['' \<notin> set port" "CHR '']'' \<notin> set port"
  shows "SplitHostPort (JoinHostPort h port) = Inr (h, port)"
proof (cases "CHR '':'' \<in> set h")
  case True
  let ?s = "CHR ''['' # h @ CHR '']'' # CHR '':'' # port"
  have s: "JoinHostPort h port = ?s" using True by (simp add: JoinHostPort_def)
  have li: "LastIndexByte ?s CHR '':'' = Some (Suc (Suc (length h)))"
    using LastIndexByte_last [of "CHR '':''" port "CHR ''['' # h @ [CHR '']'']"] p(1) by simp
  have fi: "IndexByte ?s CHR '']'' = Some (Suc (length h))"
    using IndexByte_first [of "CHR '']''" "CHR ''['' # h" "CHR '':'' # port"] h(2) by simp
  show ?thesis
    unfolding s using h p
    by (simp add: SplitHostPort_def li fi Let_def)
next
  case False
  let ?s = "h @ CHR '':'' # port"
  have s: "JoinHostPort h port = ?s" using False by (simp add: JoinHostPort_def)
  have li: "LastIndexByte ?s CHR '':'' = Some (length h)"
    using LastIndexByte_last [of "CHR '':''" port h] p(1) by simp
  have first: "?s ! 0 \<noteq> CHR ''[''"
    using h(1) by (cases h) auto
  show ?thesis
    unfolding s using h p False first
    by (simp add: SplitHostPort_def li Let_def)
qed

lemma SplitHostPort_bracket_only:
  assumes "CHR '']'' \<notin> set a"
  shows "SplitHostPort (''['' @ a @ '']'') = Inl MissingPort"
proof (cases "CHR '':'' \<in> set a")
  case False
  then have "CHR '':'' \<notin> set (''['' @ a @ '']'')" by simp
  then show ?thesis by (rule SplitHostPort_no_colon)
next
  case True
  let ?s = "CHR ''['' # a @ [CHR '']'']"
  have colon: "CHR '':'' \<in> set ?s" using True by simp
  obtain i where li: "LastIndexByte ?s CHR '':'' = Some i"
    using colon by (simp add: LastIndexByte_def)
  have fi: "IndexByte ?s CHR '']'' = Some (Suc (length a))"
    using IndexByte_first [of "CHR '']''" "CHR ''['' # a" "[]"] assms by simp
  show ?thesis
    by (simp add: SplitHostPort_def li fi Let_def)
qed

lemma clean_defaultK3sPort:
  "CHR '':'' \<notin> set defaultK3sPort \<and> CHR ''['' \<notin> set defaultK3sPort
   \<and> CHR '']'' \<notin> set defaultK3sPort"
  by (simp add: defaultK3sPort_def)

text \<open>
  Claim C9. The client construction, in \<^verbatim>\<open>createRESTConfig\<close> and in
  \<^verbatim>\<open>newKubeClient\<close>, fails when the kubeconfig does not parse, when the server URL
  of the configuration cannot be parsed, and when the host of the URL cannot be split
  into host and port, which is so for every host without a colon and for every host that
  is a bracketed address only. In every other case \<^verbatim>\<open>createRESTConfig\<close> returns the
  parsed configuration with the server URL changed only, and that URL is the parsed URL
  with its host-and-port field changed only, to the old host joined with the new port;
  \<^verbatim>\<open>newKubeClient\<close> builds the client from that configuration with the port
  \<^verbatim>\<open>defaultK3sPort\<close>. Split again, the new field yields the same host and the new
  port.
\<close>

theorem createRESTConfig_rewrites_port:
  "(\<forall>e. R kc = Inl e \<longrightarrow>
       createRESTConfig R Parse String port kc = Inl (FailedRestConfig e)
       \<and> newKubeClient R Parse String N kc = Inl (FailedRestConfig e))
   \<and> (\<forall>cfg e. R kc = Inr cfg \<and> Parse (Host cfg) = Inl e \<longrightarrow>
       createRESTConfig R Parse String port kc = Inl (FailedParseURL e)
       \<and> newKubeClient R Parse String N kc = Inl (FailedParseURL e))
   \<and> (\<forall>cfg u e. R kc = Inr cfg \<and> Parse (Host cfg) = Inr u
         \<and> SplitHostPort (URL_Host u) = Inl e \<longrightarrow>
       createRESTConfig R Parse String port kc = Inl (FailedParseHost e)
       \<and> newKubeClient R Parse String N kc = Inl (FailedParseHost e))
   \<and> (\<forall>h. CHR '':'' \<notin> set h \<longrightarrow> SplitHostPort h = Inl MissingPort)
   \<and> (\<forall>a. CHR '']'' \<notin> set a \<longrightarrow> SplitHostPort (''['' @ a @ '']'') = Inl MissingPort)
   \<and> (\<forall>cfg u. R kc = Inr cfg \<and> Parse (Host cfg) = Inr u \<and> CHR '':'' \<notin> set (URL_Host u) \<longrightarrow>
       createRESTConfig R Parse String port kc = Inl (FailedParseHost MissingPort))
   \<and> (\<forall>cfg u host oldport. R kc = Inr cfg \<and> Parse (Host cfg) = Inr u
         \<and> SplitHostPort (URL_Host u) = Inr (host, oldport) \<longrightarrow>
       createRESTConfig R Parse String port kc
         = Inr (cfg\<lparr>Host := String (u\<lparr>URL_Host := JoinHostPort host port\<rparr>)\<rparr>)
       \<and> newKubeClient R Parse String N kc
         = (case N (cfg\<lparr>Host := String (u\<lparr>URL_Host := JoinHostPort host defaultK3sPort\<rparr>)\<rparr>) of
              Inl e \<Rightarrow> Inl (FailedClientset e)
            | Inr cs \<Rightarrow> Inr cs)
       \<and> SplitHostPort (JoinHostPort host defaultK3sPort) = Inr (host, defaultK3sPort)
       \<and> (CHR '':'' \<notin> set port \<and> CHR ''['' \<notin> set port \<and> CHR '']'' \<notin> set port \<longrightarrow>
            SplitHostPort (JoinHostPort host port) = Inr (host, port)))
   \<and> (\<forall>cfg'. createRESTConfig R Parse String port kc = Inr cfg' \<longrightarrow>
       (\<exists>cfg u host oldport.
          R kc = Inr cfg \<and> Parse (Host cfg) = Inr u
          \<and> SplitHostPort (URL_Host u) = Inr (host, oldport)
          \<and> cfg' = cfg\<lparr>Host := String (u\<lparr>URL_Host := JoinHostPort host port\<rparr>)\<rparr>
          \<and> (CHR '':'' \<notin> set port \<and> CHR ''['' \<notin> set port \<and> CHR '']'' \<notin> set port \<longrightarrow>
               SplitHostPort (JoinHostPort host port) = Inr (host, port))))
   \<and> (\<forall>cs. newKubeClient R Parse String N kc = Inr cs \<longrightarrow>
       (\<exists>cfg'. createRESTConfig R Parse String defaultK3sPort kc = Inr cfg' \<and> N cfg' = Inr cs))"
proof -
  have c1: "createRESTConfig R Parse String port kc = Inl (FailedRestConfig e)
      \<and> newKubeClient R Parse String N kc = Inl (FailedRestConfig e)"
    if "R kc = Inl e" for e
    using that by (simp add: createRESTConfig_def newKubeClient_def)
  have c2: "createRESTConfig R Parse String port kc = Inl (FailedParseURL e)
      \<and> newKubeClient R Parse String N kc = Inl (FailedParseURL e)"
    if "R kc = Inr cfg" "Parse (Host cfg) = Inl e" for cfg e
    using that by (simp add: createRESTConfig_def newKubeClient_def)
  have c3: "createRESTConfig R Parse String port kc = Inl (FailedParseHost e)
      \<and> newKubeClient R Parse String N kc = Inl (FailedParseHost e)"
    if "R kc = Inr cfg" "Parse (Host cfg) = Inr u" "SplitHostPort (URL_Host u) = Inl e" for cfg u e
    using that by (simp add: createRESTConfig_def newKubeClient_def)
  have c4: "SplitHostPort h = Inl MissingPort" if "CHR '':'' \<notin> set h" for h
    using that by (rule SplitHostPort_no_colon)
  have c5: "SplitHostPort (''['' @ a @ '']'') = Inl MissingPort" if "CHR '']'' \<notin> set a" for a
    using that by (rule SplitHostPort_bracket_only)
  have c6: "createRESTConfig R Parse String port kc = Inl (FailedParseHost MissingPort)"
    if "R kc = Inr cfg" "Parse (Host cfg) = Inr u" "CHR '':'' \<notin> set (URL_Host u)" for cfg u
    using that by (simp add: createRESTConfig_def SplitHostPort_no_colon)
  have c7: "createRESTConfig R Parse String port kc
         = Inr (cfg\<lparr>Host := String (u\<lparr>URL_Host := JoinHostPort host port\<rparr>)\<rparr>)
       \<and> newKubeClient R Parse String N kc
         = (case N (cfg\<lparr>Host := String (u\<lparr>URL_Host := JoinHostPort host defaultK3sPort\<rparr>)\<rparr>) of
              Inl e \<Rightarrow> Inl (FailedClientset e)
            | Inr cs \<Rightarrow> Inr cs)
       \<and> SplitHostPort (JoinHostPort host defaultK3sPort) = Inr (host, defaultK3sPort)
       \<and> (CHR '':'' \<notin> set port \<and> CHR ''['' \<notin> set port \<and> CHR '']'' \<notin> set port \<longrightarrow>
            SplitHostPort (JoinHostPort host port) = Inr (host, port))"
    if h: "R kc = Inr cfg" "Parse (Host cfg) = Inr u"
      "SplitHostPort (URL_Host u) = Inr (host, oldport)" for cfg u host oldport
  proof -
    have hb: "CHR ''['' \<notin> set host \<and> CHR '']'' \<notin> set host"
      by (rule SplitHostPort_host [OF h(3)])
    have x: "createRESTConfig R Parse String port kc
         = Inr (cfg\<lparr>Host := String (u\<lparr>URL_Host := JoinHostPort host port\<rparr>)\<rparr>)"
      using h by (simp add: createRESTConfig_def)
    have y: "newKubeClient R Parse String N kc
         = (case N (cfg\<lparr>Host := String (u\<lparr>URL_Host := JoinHostPort host defaultK3sPort\<rparr>)\<rparr>) of
              Inl e \<Rightarrow> Inl (FailedClientset e)
            | Inr cs \<Rightarrow> Inr cs)"
      using h by (simp add: createRESTConfig_def newKubeClient_def)
    have z: "SplitHostPort (JoinHostPort host defaultK3sPort) = Inr (host, defaultK3sPort)"
      using hb clean_defaultK3sPort by (simp add: SplitHostPort_Join)
    have w: "CHR '':'' \<notin> set port \<and> CHR ''['' \<notin> set port \<and> CHR '']'' \<notin> set port \<longrightarrow>
        SplitHostPort (JoinHostPort host port) = Inr (host, port)"
      using hb by (simp add: SplitHostPort_Join)
    show ?thesis using x y z w by blast
  qed
  have c8: "\<exists>cfg u host oldport.
          R kc = Inr cfg \<and> Parse (Host cfg) = Inr u
          \<and> SplitHostPort (URL_Host u) = Inr (host, oldport)
          \<and> cfg' = cfg\<lparr>Host := String (u\<lparr>URL_Host := JoinHostPort host port\<rparr>)\<rparr>
          \<and> (CHR '':'' \<notin> set port \<and> CHR ''['' \<notin> set port \<and> CHR '']'' \<notin> set port \<longrightarrow>
               SplitHostPort (JoinHostPort host port) = Inr (host, port))"
    if ok: "createRESTConfig R Parse String port kc = Inr cfg'" for cfg'
  proof -
    from ok obtain cfg where cfg: "R kc = Inr cfg"
      by (cases "R kc") (auto simp: createRESTConfig_def)
    from ok cfg obtain u where u: "Parse (Host cfg) = Inr u"
      by (cases "Parse (Host cfg)") (auto simp: createRESTConfig_def)
    from ok cfg u obtain host oldport where
      sp: "SplitHostPort (URL_Host u) = Inr (host, oldport)"
      by (cases "SplitHostPort (URL_Host u)") (auto simp: createRESTConfig_def)
    have res: "cfg' = cfg\<lparr>Host := String (u\<lparr>URL_Host := JoinHostPort host port\<rparr>)\<rparr>"
      using ok by (simp add: createRESTConfig_def cfg u sp)
    show ?thesis
      using cfg u sp res c7 [OF cfg u sp] by blast
  qed
  have c9: "\<exists>cfg'. createRESTConfig R Parse String defaultK3sPort kc = Inr cfg' \<and> N cfg' = Inr cs"
    if "newKubeClient R Parse String N kc = Inr cs" for cs
    using that by (auto simp: newKubeClient_def split: sum.splits)
  show ?thesis
    using c1 c2 c3 c4 c5 c6 c7 c8 c9 by blast
qed

theorem createRESTConfig_rewrites_port_witness:
  "createRESTConfig sampleRESTConfig sampleParse sampleString ''7443'' ''https://127.0.0.1:16443/''
      = Inr \<lparr>Host = ''https://127.0.0.1:7443/''\<rparr>
   \<and> newKubeClient sampleRESTConfig sampleParse sampleString sampleNewForConfig
        ''https://127.0.0.1:16443/'' = Inr ''https://127.0.0.1:6443/''
   \<and> SplitHostPort (JoinHostPort ''127.0.0.1'' defaultK3sPort) = Inr (''127.0.0.1'', defaultK3sPort)
   \<and> SplitHostPort (JoinHostPort ''127.0.0.1'' ''7443'') = Inr (''127.0.0.1'', ''7443'')
   \<and> newKubeClient sampleRESTConfig sampleParse sampleString sampleNewForConfig
        ''https://localhost/'' = Inl (FailedParseHost MissingPort)
   \<and> createRESTConfig sampleRESTConfig sampleParse sampleString ''7443''
        ''https://localhost/'' = Inl (FailedParseHost MissingPort)
   \<and> newKubeClient sampleRESTConfig sampleParse sampleString sampleNewForConfig
        ''https://[::1]/'' = Inl (FailedParseHost MissingPort)
   \<and> newKubeClient sampleRESTConfig sampleParse sampleString sampleNewForConfig
        (''https://127.0.0.1:6443'' @ [CHR 0x7F]) = Inl (FailedParseURL ''invalid control character in URL'')
   \<and> createRESTConfig sampleRESTConfig sampleParse sampleString ''7443''
        (''https://127.0.0.1:6443'' @ [CHR 0x7F]) = Inl (FailedParseURL ''invalid control character in URL'')"
proof -
  note t = createRESTConfig_rewrites_port [of sampleRESTConfig _ sampleParse sampleString
      "''7443''" sampleNewForConfig]
  let ?k1 = "''https://127.0.0.1:16443/''"
  let ?u1 = "\<lparr>URL_Host = ''127.0.0.1:16443'', URL_Scheme = ''https'', URL_Path = ''/''\<rparr>"
  have r1: "sampleRESTConfig ?k1 = Inr \<lparr>Host = ?k1\<rparr>" by (simp add: sampleRESTConfig_def)
  have p1: "sampleParse (Host \<lparr>Host = ?k1\<rparr>) = Inr ?u1" by code_simp
  have s1: "SplitHostPort (URL_Host ?u1) = Inr (''127.0.0.1'', ''16443'')" by code_simp
  have clean: "CHR '':'' \<notin> set ''7443'' \<and> CHR ''['' \<notin> set ''7443'' \<and> CHR '']'' \<notin> set ''7443''"
    by simp
  from t [of ?k1] r1 p1 s1 have ok:
    "createRESTConfig sampleRESTConfig sampleParse sampleString ''7443'' ?k1
       = Inr (\<lparr>Host = ?k1\<rparr>\<lparr>Host := sampleString (?u1\<lparr>URL_Host := JoinHostPort ''127.0.0.1'' ''7443''\<rparr>)\<rparr>)
     \<and> newKubeClient sampleRESTConfig sampleParse sampleString sampleNewForConfig ?k1
       = (case sampleNewForConfig (\<lparr>Host = ?k1\<rparr>\<lparr>Host :=
              sampleString (?u1\<lparr>URL_Host := JoinHostPort ''127.0.0.1'' defaultK3sPort\<rparr>)\<rparr>) of
            Inl e \<Rightarrow> Inl (FailedClientset e) | Inr cs \<Rightarrow> Inr cs)
     \<and> SplitHostPort (JoinHostPort ''127.0.0.1'' defaultK3sPort) = Inr (''127.0.0.1'', defaultK3sPort)
     \<and> (CHR '':'' \<notin> set ''7443'' \<and> CHR ''['' \<notin> set ''7443'' \<and> CHR '']'' \<notin> set ''7443'' \<longrightarrow>
          SplitHostPort (JoinHostPort ''127.0.0.1'' ''7443'') = Inr (''127.0.0.1'', ''7443''))"
    by blast
  have a: "createRESTConfig sampleRESTConfig sampleParse sampleString ''7443'' ?k1
      = Inr \<lparr>Host = ''https://127.0.0.1:7443/''\<rparr>"
    using ok by (simp add: sampleString_def JoinHostPort_def)
  have b: "newKubeClient sampleRESTConfig sampleParse sampleString sampleNewForConfig ?k1
      = Inr ''https://127.0.0.1:6443/''"
    using ok by (simp add: sampleString_def JoinHostPort_def sampleNewForConfig_def defaultK3sPort_def)
  have c: "SplitHostPort (JoinHostPort ''127.0.0.1'' defaultK3sPort) = Inr (''127.0.0.1'', defaultK3sPort)"
    using ok by blast
  have d: "SplitHostPort (JoinHostPort ''127.0.0.1'' ''7443'') = Inr (''127.0.0.1'', ''7443'')"
    using ok clean by blast
  let ?k2 = "''https://localhost/''"
  let ?u2 = "\<lparr>URL_Host = ''localhost'', URL_Scheme = ''https'', URL_Path = ''/''\<rparr>"
  have r2: "sampleRESTConfig ?k2 = Inr \<lparr>Host = ?k2\<rparr>" by (simp add: sampleRESTConfig_def)
  have p2: "sampleParse (Host \<lparr>Host = ?k2\<rparr>) = Inr ?u2" by code_simp
  have n2: "CHR '':'' \<notin> set ''localhost''" by simp
  from t [of ?k2] n2 have s2: "SplitHostPort (URL_Host ?u2) = Inl MissingPort" by simp
  from t [of ?k2] r2 p2 s2 have e:
    "createRESTConfig sampleRESTConfig sampleParse sampleString ''7443'' ?k2
       = Inl (FailedParseHost MissingPort)
     \<and> newKubeClient sampleRESTConfig sampleParse sampleString sampleNewForConfig ?k2
       = Inl (FailedParseHost MissingPort)"
    by blast
  let ?k3 = "''https://[::1]/''"
  let ?u3 = "\<lparr>URL_Host = ''[::1]'', URL_Scheme = ''https'', URL_Path = ''/''\<rparr>"
  have r3: "sampleRESTConfig ?k3 = Inr \<lparr>Host = ?k3\<rparr>" by (simp add: sampleRESTConfig_def)
  have p3: "sampleParse (Host \<lparr>Host = ?k3\<rparr>) = Inr ?u3" by code_simp
  have n3: "CHR '']'' \<notin> set ''::1''" by simp
  from t [of ?k3] n3 have "SplitHostPort (''['' @ ''::1'' @ '']'') = Inl MissingPort" by blast
  then have s3: "SplitHostPort (URL_Host ?u3) = Inl MissingPort" by simp
  from t [of ?k3] r3 p3 s3 have f:
    "newKubeClient sampleRESTConfig sampleParse sampleString sampleNewForConfig ?k3
       = Inl (FailedParseHost MissingPort)"
    by blast
  let ?k4 = "''https://127.0.0.1:6443'' @ [CHR 0x7F]"
  have r4: "sampleRESTConfig ?k4 = Inr \<lparr>Host = ?k4\<rparr>" by (simp add: sampleRESTConfig_def)
  have p4: "sampleParse (Host \<lparr>Host = ?k4\<rparr>) = Inl ''invalid control character in URL''"
    by code_simp
  from t [of ?k4] r4 p4 have g:
    "createRESTConfig sampleRESTConfig sampleParse sampleString ''7443'' ?k4
       = Inl (FailedParseURL ''invalid control character in URL'')
     \<and> newKubeClient sampleRESTConfig sampleParse sampleString sampleNewForConfig ?k4
       = Inl (FailedParseURL ''invalid control character in URL'')"
    by blast
  show ?thesis
    using a b c d e f g by blast
qed

section \<open>Properties of the walk over the references\<close>

text \<open>
  The chain of the specification: the walk from the parameter \<open>X\<close> reaches the
  definition \<open>Y\<close>, does not walk it a second time, and keeps it once.
\<close>

lemma walk_chain_terminates:
  "walkRefCallback 8 chainRoot ''#/parameters/X'' [] = Some [''#/definitions/Y'']
   \<and> keptDefinitions chainRoot [''#/definitions/Y'']
       = [(''Y'', Schema [] [Schema ''#/definitions/Y'' []])]"
  by code_simp

lemma walk_parameter_schema_cycle_never_returns:
  "walkRefCallback fuel schemaParamRoot ''#/parameters/X'' v = None
   \<and> walkSchema fuel schemaParamRoot (Some (Schema ''#/parameters/X'' [])) v = None"
proof (induction fuel arbitrary: v)
  case 0
  show ?case by simp
next
  case (Suc n)
  have p: "prefix parameterPrefix ''#/parameters/X''"
    by (simp add: parameterPrefix_def)
  have name: "drop (length parameterPrefix) ''#/parameters/X'' = ''X''"
    by (simp add: parameterPrefix_def)
  have param: "lookupParameter schemaParamRoot ''X''
      = \<lparr>param_Ref = [], param_Schema = Some (Schema ''#/parameters/X'' []),
         param_ItemsRef = None\<rparr>"
    by (simp add: lookupParameter_def schemaParamRoot_def)
  have a: "walkRefCallback (Suc n) schemaParamRoot ''#/parameters/X'' v = None"
    by (cases "walkRefCallback n schemaParamRoot [] v")
      (simp_all add: p name param Let_def Suc.IH)
  have b: "walkSchema (Suc n) schemaParamRoot (Some (Schema ''#/parameters/X'' [])) v = None"
    using Suc.IH by simp
  show ?case using a b by simp
qed

text \<open>
  Claim C2 at the document whose shared parameter refers to itself: the parameter branch
  of the callback calls the callback on the parameter's own reference without looking at
  the visited set, so no amount of fuel lets the walk return.
\<close>

theorem walk_parameter_cycle_never_returns:
  "walkRefCallback fuel selfParamRoot ''#/parameters/X'' alreadyVisited = None"
proof (induction fuel)
  case 0
  show ?case by simp
next
  case (Suc n)
  have p: "prefix parameterPrefix ''#/parameters/X''"
    by (simp add: parameterPrefix_def)
  have name: "drop (length parameterPrefix) ''#/parameters/X'' = ''X''"
    by (simp add: parameterPrefix_def)
  have param: "lookupParameter selfParamRoot ''X''
      = \<lparr>param_Ref = ''#/parameters/X'', param_Schema = None, param_ItemsRef = None\<rparr>"
    by (simp add: lookupParameter_def selfParamRoot_def)
  show ?case
    by (simp add: p name param Suc.IH)
qed

end
